theory Spec2Isabelle
  imports Complex_Main "HOL-Library.AList" "HOL-Library.Char_ord"
begin

section \<open>JavaScript values\<close>

text \<open>
  The server is duck-typed: its guards are written with \<^verbatim>\<open>!v\<close>, \<^verbatim>\<open>typeof v\<close> and
  property reads. The values below are the ones a socket message or a direct call can
  carry. A number is a finite value, an infinity or NaN; finite doubles are embedded in
  the rationals, on which \<^verbatim>\<open><\<close> and \<^verbatim>\<open>></\<close> agree with the IEEE comparison. An array is an
  object whose property names are its indices. A string is a \<open>char list\<close>. Functions,
  symbols and big integers do not arrive in a socket message and are left out.
\<close>

datatype jsnum = Finite rat | PosInfinity | NegInfinity | NaN

datatype jsval =
    JSUndefined
  | JSNull
  | JSBoolean bool
  | JSNumber jsnum
  | JSString string
  | JSObject "(string \<times> jsval) list"

datatype jstype = TyUndefined | TyObject | TyBoolean | TyNumber | TyString

text \<open>\<^verbatim>\<open>typeof v\<close>; \<^verbatim>\<open>typeof null\<close> is \<^verbatim>\<open>'object'\<close>.\<close>

fun typeof :: "jsval \<Rightarrow> jstype" where
  "typeof JSUndefined = TyUndefined"
| "typeof JSNull = TyObject"
| "typeof (JSBoolean b) = TyBoolean"
| "typeof (JSNumber n) = TyNumber"
| "typeof (JSString s) = TyString"
| "typeof (JSObject ps) = TyObject"

text \<open>
  \<^verbatim>\<open>!v\<close> is \<open>\<not> truthy v\<close>: the falsy values are undefined, null, false, zero, NaN and
  the empty string.
\<close>

fun truthy :: "jsval \<Rightarrow> bool" where
  "truthy JSUndefined = False"
| "truthy JSNull = False"
| "truthy (JSBoolean b) = b"
| "truthy (JSNumber n) = (n \<noteq> Finite 0 \<and> n \<noteq> NaN)"
| "truthy (JSString s) = (s \<noteq> [])"
| "truthy (JSObject ps) = True"

text \<open>
  \<^verbatim>\<open>v.k\<close>: a missing property reads as undefined, and so does any property of a boolean
  or a number, and any property this program reads of a string. Reading a property of
  undefined or null raises a TypeError in JavaScript; every read in the program comes after
  a guard that has excluded both, so that case is never evaluated.
\<close>

fun get_prop :: "jsval \<Rightarrow> string \<Rightarrow> jsval" where
  "get_prop (JSObject ps) k = (case map_of ps k of None \<Rightarrow> JSUndefined | Some v \<Rightarrow> v)"
| "get_prop v k = JSUndefined"

text \<open>\<^verbatim>\<open>a < b\<close> on numbers: every comparison with NaN is false.\<close>

fun num_less :: "jsnum \<Rightarrow> jsnum \<Rightarrow> bool" where
  "num_less NaN b = False"
| "num_less a NaN = False"
| "num_less (Finite a) (Finite b) = (a < b)"
| "num_less (Finite a) PosInfinity = True"
| "num_less (Finite a) NegInfinity = False"
| "num_less PosInfinity b = False"
| "num_less NegInfinity NegInfinity = False"
| "num_less NegInfinity b = True"

section \<open>The history store (server/drawing-state.js)\<close>

text \<open>
  \<^verbatim>\<open>roomStates\<close> is a \<^verbatim>\<open>Map<roomId, {history, redoStack}>\<close>. Both arrays keep the
  JavaScript orientation: \<^verbatim>\<open>push\<close> adds at the end, \<^verbatim>\<open>pop\<close> takes the last element and
  \<^verbatim>\<open>shift\<close> the first. Every method takes the map and returns it updated. A \<^verbatim>\<open>throw\<close> is
  an \<open>Inl\<close>; each method throws before its first write, so an \<open>Inl\<close> leaves the map as
  it was.
\<close>

record room_state =
  history :: "jsval list"
  redoStack :: "jsval list"

type_synonym room_states = "string \<rightharpoonup> room_state"

datatype error = InvalidRoomId | InvalidUserId | InvalidOperation

definition MAX_HISTORY_SIZE :: nat where
  "MAX_HISTORY_SIZE = 10000"

text \<open>
  \<^verbatim>\<open>_getRoomState\<close>: get or create. The result carries the map (with the fresh entry when
  the room was unknown), the key and the room's state object.
\<close>

definition priv_getRoomState ::
  "room_states \<Rightarrow> jsval \<Rightarrow> error + (room_states \<times> string \<times> room_state)" where
  "priv_getRoomState rs roomId =
     (if \<not> truthy roomId \<or> typeof roomId \<noteq> TyString then Inl InvalidRoomId
      else case roomId of
        JSString r \<Rightarrow>
          (case rs r of
             None \<Rightarrow>
               (let st = \<lparr>history = [], redoStack = []\<rparr> in Inr (rs(r \<mapsto> st), r, st))
           | Some st \<Rightarrow> Inr (rs, r, st))
      | _ \<Rightarrow> Inl InvalidRoomId)"

definition getHistory :: "room_states \<Rightarrow> jsval \<Rightarrow> error + (room_states \<times> jsval list)" where
  "getHistory rs roomId =
     (case priv_getRoomState rs roomId of
        Inl e \<Rightarrow> Inl e
      | Inr (rs1, r, st) \<Rightarrow> Inr (rs1, history st))"

text \<open>Lines 56 to 58 of \<^verbatim>\<open>addOperation\<close>: drop the oldest entry once the bound is passed.\<close>

definition evictOldest :: "room_state \<Rightarrow> room_state" where
  "evictOldest st =
     (if length (history st) > MAX_HISTORY_SIZE then st\<lparr>history := tl (history st)\<rparr> else st)"

definition addOperation :: "room_states \<Rightarrow> jsval \<Rightarrow> jsval \<Rightarrow> error + room_states" where
  "addOperation rs roomId operation =
     (if \<not> truthy operation \<or> typeof operation \<noteq> TyObject then Inl InvalidOperation
      else case priv_getRoomState rs roomId of
        Inl e \<Rightarrow> Inl e
      | Inr (rs1, r, st) \<Rightarrow>
          (let st1 = st\<lparr>history := history st @ [operation]\<rparr>;
               st2 = st1\<lparr>redoStack := []\<rparr>
           in Inr (rs1(r \<mapsto> evictOldest st2))))"

definition undo :: "room_states \<Rightarrow> jsval \<Rightarrow> error + (room_states \<times> jsval list)" where
  "undo rs roomId =
     (case priv_getRoomState rs roomId of
        Inl e \<Rightarrow> Inl e
      | Inr (rs1, r, st) \<Rightarrow>
          if length (history st) = 0 then Inr (rs1, history st)
          else
            (let lastOperation = last (history st);
                 st1 = st\<lparr>history := butlast (history st)\<rparr>;
                 st2 = st1\<lparr>redoStack := redoStack st1 @ [lastOperation]\<rparr>
             in Inr (rs1(r \<mapsto> st2), history st2)))"

definition redo :: "room_states \<Rightarrow> jsval \<Rightarrow> error + (room_states \<times> jsval list)" where
  "redo rs roomId =
     (case priv_getRoomState rs roomId of
        Inl e \<Rightarrow> Inl e
      | Inr (rs1, r, st) \<Rightarrow>
          if length (redoStack st) = 0 then Inr (rs1, history st)
          else
            (let nextOperation = last (redoStack st);
                 st1 = st\<lparr>redoStack := butlast (redoStack st)\<rparr>;
                 st2 = st1\<lparr>history := history st1 @ [nextOperation]\<rparr>
             in Inr (rs1(r \<mapsto> st2), history st2)))"

definition canUndo :: "room_states \<Rightarrow> jsval \<Rightarrow> error + (room_states \<times> bool)" where
  "canUndo rs roomId =
     (case priv_getRoomState rs roomId of
        Inl e \<Rightarrow> Inl e
      | Inr (rs1, r, st) \<Rightarrow> Inr (rs1, length (history st) > 0))"

definition canRedo :: "room_states \<Rightarrow> jsval \<Rightarrow> error + (room_states \<times> bool)" where
  "canRedo rs roomId =
     (case priv_getRoomState rs roomId of
        Inl e \<Rightarrow> Inl e
      | Inr (rs1, r, st) \<Rightarrow> Inr (rs1, length (redoStack st) > 0))"

definition clear :: "room_states \<Rightarrow> jsval \<Rightarrow> error + room_states" where
  "clear rs roomId =
     (case priv_getRoomState rs roomId of
        Inl e \<Rightarrow> Inl e
      | Inr (rs1, r, st) \<Rightarrow>
          (let st1 = st\<lparr>history := []\<rparr>;
               st2 = st1\<lparr>redoStack := []\<rparr>
           in Inr (rs1(r \<mapsto> st2))))"

definition deleteRoom :: "room_states \<Rightarrow> jsval \<Rightarrow> room_states" where
  "deleteRoom rs roomId = (case roomId of JSString r \<Rightarrow> rs(r := None) | _ \<Rightarrow> rs)"

section \<open>The member registry (server/rooms.js)\<close>

text \<open>
  \<^verbatim>\<open>rooms\<close> is a \<^verbatim>\<open>Map<roomId, Map<userId, {color}>>\<close>. The inner map keeps its
  insertion order, which \<^verbatim>\<open>getUsers\<close> shows and on whose size the colour depends: it is
  an association list of (userId, colour) pairs, \<open>AList.update\<close> being \<^verbatim>\<open>Map.set\<close>
  (replace in place, or add at the end) and \<open>AList.delete\<close> being \<^verbatim>\<open>Map.delete\<close>. The
  one-field object \<^verbatim>\<open>{color}\<close> is the colour itself, and an entry \<^verbatim>\<open>{id, color}\<close> of
  \<^verbatim>\<open>getUsers\<close> is the pair. The order of the outer map shows only in \<^verbatim>\<open>getRoomIds\<close>,
  which is left out.
\<close>

type_synonym room = "(string \<times> string) list"

type_synonym registry = "string \<rightharpoonup> room"

definition USER_COLORS :: "string list" where
  "USER_COLORS =
     [''#FF5733'', ''#33FF57'', ''#3357FF'', ''#FF33A1'', ''#A133FF'',
      ''#33FFF6'', ''#F6FF33'', ''#FF8C33'', ''#8C33FF'', ''#33FF8C'',
      ''#FF6B6B'', ''#4ECDC4'', ''#45B7D1'', ''#FFA07A'', ''#98D8C8'',
      ''#F7DC6F'', ''#BB8FCE'', ''#85C1E2'', ''#F8B739'', ''#52B788'']"

text \<open>\<^verbatim>\<open>_getRoom\<close>: get or create, as \<open>priv_getRoomState\<close> does.\<close>

definition priv_getRoom :: "registry \<Rightarrow> jsval \<Rightarrow> error + (registry \<times> string \<times> room)" where
  "priv_getRoom reg roomId =
     (if \<not> truthy roomId \<or> typeof roomId \<noteq> TyString then Inl InvalidRoomId
      else case roomId of
        JSString r \<Rightarrow>
          (case reg r of
             None \<Rightarrow> Inr (reg(r \<mapsto> []), r, [])
           | Some room \<Rightarrow> Inr (reg, r, room))
      | _ \<Rightarrow> Inl InvalidRoomId)"

definition getUsers :: "registry \<Rightarrow> jsval \<Rightarrow> error + (registry \<times> (string \<times> string) list)" where
  "getUsers reg roomId =
     (case priv_getRoom reg roomId of
        Inl e \<Rightarrow> Inl e
      | Inr (reg1, r, room) \<Rightarrow> Inr (reg1, map (\<lambda>(userId, color). (userId, color)) room))"

definition addUser ::
  "registry \<Rightarrow> jsval \<Rightarrow> jsval \<Rightarrow> error + (registry \<times> string \<times> (string \<times> string) list)" where
  "addUser reg roomId userId =
     (if \<not> truthy userId \<or> typeof userId \<noteq> TyString then Inl InvalidUserId
      else case priv_getRoom reg roomId of
        Inl e \<Rightarrow> Inl e
      | Inr (reg1, r, room) \<Rightarrow>
          (case userId of
             JSString u \<Rightarrow>
               (case map_of room u of
                  Some color \<Rightarrow>
                    (case getUsers reg1 roomId of
                       Inl e \<Rightarrow> Inl e
                     | Inr (reg2, users) \<Rightarrow> Inr (reg2, color, users))
                | None \<Rightarrow>
                    (let color = USER_COLORS ! (length room mod length USER_COLORS);
                         reg2 = reg1(r \<mapsto> AList.update u color room)
                     in case getUsers reg2 roomId of
                          Inl e \<Rightarrow> Inl e
                        | Inr (reg3, users) \<Rightarrow> Inr (reg3, color, users)))
           | _ \<Rightarrow> Inl InvalidUserId))"

text \<open>
  \<^verbatim>\<open>removeUser\<close>: \<^verbatim>\<open>room.delete(userId)\<close> finds nothing for a key that is not a string.
\<close>

definition removeUser :: "registry \<Rightarrow> jsval \<Rightarrow> jsval \<Rightarrow> error + registry" where
  "removeUser reg roomId userId =
     (case priv_getRoom reg roomId of
        Inl e \<Rightarrow> Inl e
      | Inr (reg1, r, room) \<Rightarrow>
          (let room1 = (case userId of JSString u \<Rightarrow> AList.delete u room | _ \<Rightarrow> room)
           in if length room1 = 0 then Inr (reg1(r := None)) else Inr (reg1(r \<mapsto> room1))))"

definition getUserCount :: "registry \<Rightarrow> jsval \<Rightarrow> nat" where
  "getUserCount reg roomId =
     (case roomId of
        JSString r \<Rightarrow> (case reg r of None \<Rightarrow> 0 | Some room \<Rightarrow> length room)
      | _ \<Rightarrow> 0)"

definition hasUser :: "registry \<Rightarrow> jsval \<Rightarrow> jsval \<Rightarrow> bool" where
  "hasUser reg roomId userId =
     (case roomId of
        JSString r \<Rightarrow>
          (case reg r of
             None \<Rightarrow> False
           | Some room \<Rightarrow> (case userId of JSString u \<Rightarrow> map_of room u \<noteq> None | _ \<Rightarrow> False))
      | _ \<Rightarrow> False)"

section \<open>The gateway (server/server.js)\<close>

subsection \<open>Validation helpers\<close>

text \<open>
  \<^verbatim>\<open>a < b\<close> on values, used after \<^verbatim>\<open>typeof a === 'number'\<close> with a numeric literal for
  \<open>b\<close> (or the other way round); the right operand of \<^verbatim>\<open>||\<close> is not evaluated otherwise.
\<close>

fun js_less :: "jsval \<Rightarrow> jsval \<Rightarrow> bool" where
  "js_less (JSNumber a) (JSNumber b) = num_less a b"
| "js_less a b = False"

definition isValidOperation :: "jsval \<Rightarrow> bool" where
  "isValidOperation opn =
     (if \<not> truthy opn \<or> typeof opn \<noteq> TyObject then False
      else if \<not> truthy (get_prop opn ''from'') \<or> \<not> truthy (get_prop opn ''to'') \<or>
              typeof (get_prop opn ''from'') \<noteq> TyObject \<or>
              typeof (get_prop opn ''to'') \<noteq> TyObject then False
      else if typeof (get_prop (get_prop opn ''from'') ''x'') \<noteq> TyNumber \<or>
              typeof (get_prop (get_prop opn ''from'') ''y'') \<noteq> TyNumber then False
      else if typeof (get_prop (get_prop opn ''to'') ''x'') \<noteq> TyNumber \<or>
              typeof (get_prop (get_prop opn ''to'') ''y'') \<noteq> TyNumber then False
      else if \<not> truthy (get_prop opn ''tool'') \<or>
              (get_prop opn ''tool'' \<noteq> JSString ''brush'' \<and>
               get_prop opn ''tool'' \<noteq> JSString ''eraser'') then False
      else if typeof (get_prop opn ''lineWidth'') \<noteq> TyNumber \<or>
              js_less (get_prop opn ''lineWidth'') (JSNumber (Finite 1)) \<or>
              js_less (JSNumber (Finite 100)) (get_prop opn ''lineWidth'') then False
      else if get_prop opn ''tool'' = JSString ''brush'' \<and>
              (\<not> truthy (get_prop opn ''color'') \<or>
               typeof (get_prop opn ''color'') \<noteq> TyString) then False
      else True)"

definition isValidCursorData :: "jsval \<Rightarrow> bool" where
  "isValidCursorData data =
     (if \<not> truthy data \<or> typeof data \<noteq> TyObject then False
      else if \<not> truthy (get_prop data ''pos'') \<or>
              typeof (get_prop data ''pos'') \<noteq> TyObject then False
      else if typeof (get_prop (get_prop data ''pos'') ''x'') \<noteq> TyNumber \<or>
              typeof (get_prop (get_prop data ''pos'') ''y'') \<noteq> TyNumber then False
      else True)"

text \<open>The character class \<^verbatim>\<open>[a-zA-Z0-9-]\<close>, whose complement the sanitizer deletes.\<close>

definition room_id_char :: "char \<Rightarrow> bool" where
  "room_id_char c =
     ((CHR ''a'' \<le> c \<and> c \<le> CHR ''z'') \<or> (CHR ''A'' \<le> c \<and> c \<le> CHR ''Z'') \<or>
      (CHR ''0'' \<le> c \<and> c \<le> CHR ''9'') \<or> c = CHR ''-'')"

text \<open>
  \<^verbatim>\<open>replace(/[^a-zA-Z0-9-]/g, '')\<close> keeps the characters of the class,
  \<^verbatim>\<open>substring(0, 50)\<close> the first fifty of them, and \<^verbatim>\<open>|| 'default-room'\<close> replaces an
  empty result.
\<close>

definition sanitizeRoomId :: "jsval \<Rightarrow> string" where
  "sanitizeRoomId roomId =
     (if \<not> truthy roomId \<or> typeof roomId \<noteq> TyString then ''default-room''
      else case roomId of
        JSString s \<Rightarrow>
          (let t = take 50 (filter room_id_char s)
           in if t = [] then ''default-room'' else t)
      | _ \<Rightarrow> ''default-room'')"

subsection \<open>Connection handlers\<close>

text \<open>
  Each connection owns the two closure variables \<^verbatim>\<open>currentRoom\<close> and \<^verbatim>\<open>userColor\<close>, both
  \<^verbatim>\<open>null\<close> at first; the two singletons are shared. A handler takes the shared state and
  the connection's variables and returns both. What a handler emits does not feed back
  into either and is left out. A \<^verbatim>\<open>catch\<close> block only logs (the one of \<^verbatim>\<open>JOIN_ROOM\<close> also
  emits), so a handler whose call throws keeps the writes made before the throw.
\<close>

record session =
  currentRoom :: jsval
  userColor :: jsval

record server =
  rooms :: registry
  roomStates :: room_states

definition initial_session :: session where
  "initial_session = \<lparr>currentRoom = JSNull, userColor = JSNull\<rparr>"

definition initial_server :: server where
  "initial_server = \<lparr>rooms = Map.empty, roomStates = Map.empty\<rparr>"

text \<open>
  The object literal \<^verbatim>\<open>{canUndo: DrawingState.canUndo(room), canRedo:
  DrawingState.canRedo(room)}\<close>: the store after its two calls, in that order.
\<close>

definition undoRedoState :: "room_states \<Rightarrow> jsval \<Rightarrow> room_states" where
  "undoRedoState rs roomId =
     (case canUndo rs roomId of
        Inl e \<Rightarrow> rs
      | Inr (rs1, cu) \<Rightarrow>
          (case canRedo rs1 roomId of
             Inl e \<Rightarrow> rs1
           | Inr (rs2, cr) \<Rightarrow> rs2))"

definition on_JOIN_ROOM :: "string \<Rightarrow> jsval \<Rightarrow> server \<Rightarrow> session \<Rightarrow> server \<times> session" where
  "on_JOIN_ROOM socket_id roomId srv sess =
     (let room = sanitizeRoomId roomId;
          sess1 = sess\<lparr>currentRoom := JSString room\<rparr>
      in case addUser (rooms srv) (JSString room) (JSString socket_id) of
           Inl e \<Rightarrow> (srv, sess1)
         | Inr (reg1, color, users) \<Rightarrow>
             (let sess2 = sess1\<lparr>userColor := JSString color\<rparr>;
                  srv1 = srv\<lparr>rooms := reg1\<rparr>
              in case getHistory (roomStates srv1) (JSString room) of
                   Inl e \<Rightarrow> (srv1, sess2)
                 | Inr (rs1, h) \<Rightarrow>
                     (srv1\<lparr>roomStates := undoRedoState rs1 (JSString room)\<rparr>, sess2)))"

definition on_DRAW :: "jsval \<Rightarrow> server \<Rightarrow> session \<Rightarrow> server \<times> session" where
  "on_DRAW data srv sess =
     (if \<not> truthy (currentRoom sess) then (srv, sess)
      else if \<not> isValidOperation data then (srv, sess)
      else case addOperation (roomStates srv) (currentRoom sess) data of
             Inl e \<Rightarrow> (srv, sess)
           | Inr rs1 \<Rightarrow> (srv\<lparr>roomStates := undoRedoState rs1 (currentRoom sess)\<rparr>, sess))"

definition on_CURSOR_MOVE :: "jsval \<Rightarrow> server \<Rightarrow> session \<Rightarrow> server \<times> session" where
  "on_CURSOR_MOVE data srv sess =
     (if \<not> truthy (currentRoom sess) then (srv, sess)
      else if \<not> isValidCursorData data then (srv, sess)
      else (srv, sess))"

definition on_UNDO :: "server \<Rightarrow> session \<Rightarrow> server \<times> session" where
  "on_UNDO srv sess =
     (if \<not> truthy (currentRoom sess) then (srv, sess)
      else case undo (roomStates srv) (currentRoom sess) of
             Inl e \<Rightarrow> (srv, sess)
           | Inr (rs1, newHistory) \<Rightarrow>
               (srv\<lparr>roomStates := undoRedoState rs1 (currentRoom sess)\<rparr>, sess))"

definition on_REDO :: "server \<Rightarrow> session \<Rightarrow> server \<times> session" where
  "on_REDO srv sess =
     (if \<not> truthy (currentRoom sess) then (srv, sess)
      else case redo (roomStates srv) (currentRoom sess) of
             Inl e \<Rightarrow> (srv, sess)
           | Inr (rs1, newHistory) \<Rightarrow>
               (srv\<lparr>roomStates := undoRedoState rs1 (currentRoom sess)\<rparr>, sess))"

definition on_CLEAR :: "server \<Rightarrow> session \<Rightarrow> server \<times> session" where
  "on_CLEAR srv sess =
     (if \<not> truthy (currentRoom sess) then (srv, sess)
      else case clear (roomStates srv) (currentRoom sess) of
             Inl e \<Rightarrow> (srv, sess)
           | Inr rs1 \<Rightarrow> (srv\<lparr>roomStates := rs1\<rparr>, sess))"

definition on_REQUEST_HISTORY :: "server \<Rightarrow> session \<Rightarrow> server \<times> session" where
  "on_REQUEST_HISTORY srv sess =
     (if \<not> truthy (currentRoom sess) then (srv, sess)
      else case getHistory (roomStates srv) (currentRoom sess) of
             Inl e \<Rightarrow> (srv, sess)
           | Inr (rs1, h) \<Rightarrow>
               (srv\<lparr>roomStates := undoRedoState rs1 (currentRoom sess)\<rparr>, sess))"

definition on_disconnect :: "string \<Rightarrow> server \<Rightarrow> session \<Rightarrow> server \<times> session" where
  "on_disconnect socket_id srv sess =
     (if truthy (currentRoom sess) then
        (case removeUser (rooms srv) (currentRoom sess) (JSString socket_id) of
           Inl e \<Rightarrow> (srv, sess)
         | Inr reg1 \<Rightarrow>
             (let srv1 = srv\<lparr>rooms := reg1\<rparr>
              in if getUserCount (rooms srv1) (currentRoom sess) = 0
                 then (srv1\<lparr>roomStates := deleteRoom (roomStates srv1) (currentRoom sess)\<rparr>, sess)
                 else (srv1, sess)))
      else (srv, sess))"

text \<open>The inbound events of one connection, and the handler each one runs.\<close>

datatype message =
    JOIN_ROOM jsval
  | DRAW jsval
  | CURSOR_MOVE jsval
  | UNDO
  | REDO
  | CLEAR
  | REQUEST_HISTORY
  | DISCONNECT

fun handle :: "string \<Rightarrow> message \<Rightarrow> server \<times> session \<Rightarrow> server \<times> session" where
  "handle socket_id (JOIN_ROOM roomId) (srv, sess) = on_JOIN_ROOM socket_id roomId srv sess"
| "handle socket_id (DRAW data) (srv, sess) = on_DRAW data srv sess"
| "handle socket_id (CURSOR_MOVE data) (srv, sess) = on_CURSOR_MOVE data srv sess"
| "handle socket_id UNDO (srv, sess) = on_UNDO srv sess"
| "handle socket_id REDO (srv, sess) = on_REDO srv sess"
| "handle socket_id CLEAR (srv, sess) = on_CLEAR srv sess"
| "handle socket_id REQUEST_HISTORY (srv, sess) = on_REQUEST_HISTORY srv sess"
| "handle socket_id DISCONNECT (srv, sess) = on_disconnect socket_id srv sess"

fun process :: "string \<Rightarrow> message list \<Rightarrow> server \<times> session \<Rightarrow> server \<times> session" where
  "process socket_id [] state = state"
| "process socket_id (m # ms) state = process socket_id ms (handle socket_id m state)"

section \<open>Call sequences and the vocabulary of the properties\<close>

text \<open>A run of \<^verbatim>\<open>undo\<close> and \<^verbatim>\<open>redo\<close> calls on one room; it stops at the first throw.\<close>

datatype ur_call = Undo | Redo

fun run_calls :: "room_states \<Rightarrow> jsval \<Rightarrow> ur_call list \<Rightarrow> error + room_states" where
  "run_calls rs roomId [] = Inr rs"
| "run_calls rs roomId (c # cs) =
     (case (case c of Undo \<Rightarrow> undo rs roomId | Redo \<Rightarrow> redo rs roomId) of
        Inl e \<Rightarrow> Inl e
      | Inr (rs1, h) \<Rightarrow> run_calls rs1 roomId cs)"

text \<open>A run of \<^verbatim>\<open>addOperation\<close> calls on one room.\<close>

fun addOperations :: "room_states \<Rightarrow> jsval \<Rightarrow> jsval list \<Rightarrow> error + room_states" where
  "addOperations rs roomId [] = Inr rs"
| "addOperations rs roomId (operation # ops) =
     (case addOperation rs roomId operation of
        Inl e \<Rightarrow> Inl e
      | Inr rs1 \<Rightarrow> addOperations rs1 roomId ops)"

text \<open>A run of \<^verbatim>\<open>addUser\<close> calls on one room, collecting the colour each call returns.\<close>

fun addUsers :: "registry \<Rightarrow> jsval \<Rightarrow> jsval list \<Rightarrow> error + (registry \<times> string list)" where
  "addUsers reg roomId [] = Inr (reg, [])"
| "addUsers reg roomId (userId # userIds) =
     (case addUser reg roomId userId of
        Inl e \<Rightarrow> Inl e
      | Inr (reg1, color, users) \<Rightarrow>
          (case addUsers reg1 roomId userIds of
             Inl e \<Rightarrow> Inl e
           | Inr (reg2, colors) \<Rightarrow> Inr (reg2, color # colors)))"

text \<open>The history of a room; a room the store does not know has none.\<close>

definition history_of :: "room_states \<Rightarrow> string \<Rightarrow> jsval list" where
  "history_of rs r = (case rs r of None \<Rightarrow> [] | Some st \<Rightarrow> history st)"

text \<open>The members of a room; a room the registry does not know has none.\<close>

definition members_of :: "registry \<Rightarrow> string \<Rightarrow> room" where
  "members_of reg r = (case reg r of None \<Rightarrow> [] | Some room \<Rightarrow> room)"

text \<open>The history followed by the redo stack read from its top.\<close>

definition combined :: "room_state \<Rightarrow> jsval list" where
  "combined st = history st @ rev (redoStack st)"

text \<open>The alphanumeric characters and the hyphen.\<close>

definition room_id_alphabet :: string where
  "room_id_alphabet = ''abcdefghijklmnopqrstuvwxyzABCDEFGHIJKLMNOPQRSTUVWXYZ0123456789-''"

text \<open>
  A room identifier within the restriction: not empty, at most fifty characters, all of
  them alphanumeric or hyphens.
\<close>

definition room_id_ok :: "string \<Rightarrow> bool" where
  "room_id_ok r = (r \<noteq> [] \<and> length r \<le> 50 \<and> set r \<subseteq> set room_id_alphabet)"

text \<open>
  Every room identifier the gateway holds is within the restriction: the connection's
  \<^verbatim>\<open>currentRoom\<close>, when it is not \<^verbatim>\<open>null\<close>, and every key of the registry and of the
  history store.
\<close>

definition room_ids_sanitized :: "server \<Rightarrow> session \<Rightarrow> bool" where
  "room_ids_sanitized srv sess =
     ((currentRoom sess = JSNull \<or> (\<exists>r. currentRoom sess = JSString r \<and> room_id_ok r)) \<and>
      (\<forall>k. rooms srv k \<noteq> None \<longrightarrow> room_id_ok k) \<and>
      (\<forall>k. roomStates srv k \<noteq> None \<longrightarrow> room_id_ok k))"

text \<open>
  The shape of an operation in the words of the specification: a start and an end point
  with numeric coordinates, a tool tag \<^verbatim>\<open>brush\<close> or \<^verbatim>\<open>eraser\<close>, a line width between 1 and
  100, and a colour string when the tool is the brush.
\<close>

fun numeric_point :: "jsval \<Rightarrow> bool" where
  "numeric_point (JSObject ps) =
     (typeof (get_prop (JSObject ps) ''x'') = TyNumber \<and>
      typeof (get_prop (JSObject ps) ''y'') = TyNumber)"
| "numeric_point v = False"

fun width_in_range :: "jsval \<Rightarrow> bool" where
  "width_in_range (JSNumber (Finite w)) = (1 \<le> w \<and> w \<le> 100)"
| "width_in_range v = False"

fun color_present :: "jsval \<Rightarrow> bool" where
  "color_present (JSString c) = (c \<noteq> [])"
| "color_present v = False"

fun well_formed_operation :: "jsval \<Rightarrow> bool" where
  "well_formed_operation (JSObject ps) =
     (numeric_point (get_prop (JSObject ps) ''from'') \<and>
      numeric_point (get_prop (JSObject ps) ''to'') \<and>
      (get_prop (JSObject ps) ''tool'' = JSString ''brush'' \<or>
       get_prop (JSObject ps) ''tool'' = JSString ''eraser'') \<and>
      width_in_range (get_prop (JSObject ps) ''lineWidth'') \<and>
      (get_prop (JSObject ps) ''tool'' = JSString ''brush'' \<longrightarrow>
         color_present (get_prop (JSObject ps) ''color'')))"
| "well_formed_operation v = False"

section \<open>Properties of the history store\<close>

subsection \<open>Auxiliary facts\<close>

lemma getRoomState_known:
  "r \<noteq> [] \<Longrightarrow> rs r = Some st \<Longrightarrow> priv_getRoomState rs (JSString r) = Inr (rs, r, st)"
  by (simp add: priv_getRoomState_def Let_def)

lemma getRoomState_unknown:
  "r \<noteq> [] \<Longrightarrow> rs r = None \<Longrightarrow>
   priv_getRoomState rs (JSString r) =
     Inr (rs(r \<mapsto> \<lparr>history = [], redoStack = []\<rparr>), r, \<lparr>history = [], redoStack = []\<rparr>)"
  by (simp add: priv_getRoomState_def Let_def)

lemma getRoomState_invalid:
  "\<not> truthy roomId \<or> typeof roomId \<noteq> TyString \<Longrightarrow> priv_getRoomState rs roomId = Inl InvalidRoomId"
  by (simp add: priv_getRoomState_def Let_def)

lemma string_iff: "(truthy v \<and> typeof v = TyString) = (\<exists>s. v = JSString s \<and> s \<noteq> [])"
  by (cases v) auto

lemma object_iff: "(truthy v \<and> typeof v = TyObject) = (\<exists>ps. v = JSObject ps)"
  by (cases v) auto

lemma undo_known:
  "r \<noteq> [] \<Longrightarrow> rs r = Some st \<Longrightarrow>
   undo rs (JSString r) =
     (if history st = [] then Inr (rs, history st)
      else Inr (rs(r \<mapsto> st\<lparr>history := butlast (history st),
                             redoStack := redoStack st @ [last (history st)]\<rparr>),
                butlast (history st)))"
  by (simp add: undo_def getRoomState_known Let_def)

lemma redo_known:
  "r \<noteq> [] \<Longrightarrow> rs r = Some st \<Longrightarrow>
   redo rs (JSString r) =
     (if redoStack st = [] then Inr (rs, history st)
      else Inr (rs(r \<mapsto> st\<lparr>redoStack := butlast (redoStack st),
                             history := history st @ [last (redoStack st)]\<rparr>),
                history st @ [last (redoStack st)]))"
  by (simp add: redo_def getRoomState_known Let_def)

lemma combined_undo:
  "history st \<noteq> [] \<Longrightarrow>
   combined (st\<lparr>history := butlast (history st),
                redoStack := redoStack st @ [last (history st)]\<rparr>) = combined st"
  by (simp add: combined_def)

lemma rev_last_butlast: "xs \<noteq> [] \<Longrightarrow> rev xs = last xs # rev (butlast xs)"
  by (induction xs) auto

lemma combined_redo:
  "redoStack st \<noteq> [] \<Longrightarrow>
   combined (st\<lparr>redoStack := butlast (redoStack st),
                history := history st @ [last (redoStack st)]\<rparr>) = combined st"
proof -
  assume ne: "redoStack st \<noteq> []"
  from ne show ?thesis by (simp add: combined_def rev_last_butlast)
qed

lemma undo_combined:
  assumes "r \<noteq> []" and "rs r = Some st"
  shows "\<exists>rs1 h st1. undo rs (JSString r) = Inr (rs1, h) \<and> rs1 r = Some st1 \<and>
           combined st1 = combined st"
  using assms by (simp add: undo_known combined_undo del: room_state.simps)

lemma redo_combined:
  assumes "r \<noteq> []" and "rs r = Some st"
  shows "\<exists>rs1 h st1. redo rs (JSString r) = Inr (rs1, h) \<and> rs1 r = Some st1 \<and>
           combined st1 = combined st"
  using assms by (simp add: redo_known combined_redo)

lemma run_calls_combined:
  "r \<noteq> [] \<Longrightarrow> rs r = Some st \<Longrightarrow>
   \<exists>rs1 st1. run_calls rs (JSString r) cs = Inr rs1 \<and> rs1 r = Some st1 \<and>
     combined st1 = combined st"
proof (induction cs arbitrary: rs st)
  case Nil
  then show ?case by simp
next
  case (Cons c cs)
  show ?case
  proof (cases c)
    case Undo
    from undo_combined [of r rs st] Cons.prems obtain rs1 h st1 where
      s: "undo rs (JSString r) = Inr (rs1, h)" "rs1 r = Some st1" "combined st1 = combined st"
      by blast
    from Cons.IH [of rs1 st1] Cons.prems(1) s Undo show ?thesis by simp
  next
    case Redo
    from redo_combined [of r rs st] Cons.prems obtain rs1 h st1 where
      s: "redo rs (JSString r) = Inr (rs1, h)" "rs1 r = Some st1" "combined st1 = combined st"
      by blast
    from Cons.IH [of rs1 st1] Cons.prems(1) s Redo show ?thesis by simp
  qed
qed

lemma room_state_updates:
  "st\<lparr>history := h, redoStack := q\<rparr> = \<lparr>history = h, redoStack = q\<rparr>"
  by (cases st) simp

lemma addOperation_valid:
  "r \<noteq> [] \<Longrightarrow> truthy operation \<Longrightarrow> typeof operation = TyObject \<Longrightarrow>
   addOperation rs (JSString r) operation =
     Inr (rs(r \<mapsto> evictOldest \<lparr>history = history_of rs r @ [operation], redoStack = []\<rparr>))"
  by (cases "rs r")
     (simp_all add: addOperation_def getRoomState_known getRoomState_unknown history_of_def Let_def room_state_updates)

lemma redoStack_evictOldest: "redoStack (evictOldest st) = redoStack st"
  by (simp add: evictOldest_def)

lemma history_evictOldest:
  "history (evictOldest \<lparr>history = h @ [operation], redoStack = q\<rparr>) =
     (if length h < MAX_HISTORY_SIZE then h @ [operation] else tl h @ [operation])"
proof (cases h)
  case Nil
  then show ?thesis by (simp add: evictOldest_def MAX_HISTORY_SIZE_def)
next
  case (Cons x xs)
  have "(MAX_HISTORY_SIZE < Suc (Suc (length xs))) = (\<not> Suc (length xs) < MAX_HISTORY_SIZE)"
    by arith
  with Cons show ?thesis by (simp add: evictOldest_def)
qed

lemma addOperation_bad_operation:
  "\<not> truthy operation \<or> typeof operation \<noteq> TyObject \<Longrightarrow>
   addOperation rs roomId operation = Inl InvalidOperation"
  by (simp add: addOperation_def)

lemma addOperation_bad_room:
  "\<not> truthy roomId \<or> typeof roomId \<noteq> TyString \<Longrightarrow>
   \<exists>e. addOperation rs roomId operation = Inl e"
  by (simp add: addOperation_def getRoomState_invalid)

lemma addOperation_success:
  assumes "addOperation rs roomId operation = Inr rs1"
  shows "\<exists>r. roomId = JSString r \<and> r \<noteq> [] \<and> truthy operation \<and> typeof operation = TyObject"
proof -
  have op: "truthy operation \<and> typeof operation = TyObject"
  proof (rule ccontr)
    assume "\<not> (truthy operation \<and> typeof operation = TyObject)"
    then have "addOperation rs roomId operation = Inl InvalidOperation"
      by (simp add: addOperation_bad_operation)
    with assms show False by simp
  qed
  have "truthy roomId \<and> typeof roomId = TyString"
  proof (rule ccontr)
    assume "\<not> (truthy roomId \<and> typeof roomId = TyString)"
    then have "\<exists>e. addOperation rs roomId operation = Inl e"
      by (simp add: addOperation_bad_room)
    with assms show False by auto
  qed
  then obtain r where "roomId = JSString r" "r \<noteq> []"
    using string_iff [of roomId] by blast
  with op show ?thesis by simp
qed

lemma history_of_upd: "history_of (rs(r \<mapsto> st)) r = history st"
  by (simp add: history_of_def)

lemma length_history_evictOldest:
  "length h \<le> MAX_HISTORY_SIZE \<Longrightarrow>
   length (history (evictOldest \<lparr>history = h @ [operation], redoStack = q\<rparr>)) \<le> MAX_HISTORY_SIZE"
proof (cases "length h < MAX_HISTORY_SIZE")
  case True
  then show ?thesis by (simp add: history_evictOldest)
next
  case False
  assume "length h \<le> MAX_HISTORY_SIZE"
  with False have "length h = MAX_HISTORY_SIZE" by simp
  then have "length (tl h @ [operation]) = MAX_HISTORY_SIZE"
    by (simp add: MAX_HISTORY_SIZE_def)
  with False show ?thesis by (simp add: history_evictOldest)
qed

lemma addOperation_bound:
  assumes "r \<noteq> []" and "truthy operation" and "typeof operation = TyObject"
    and "length (history_of rs r) \<le> MAX_HISTORY_SIZE"
  shows "\<exists>rs1. addOperation rs (JSString r) operation = Inr rs1 \<and>
           length (history_of rs1 r) \<le> MAX_HISTORY_SIZE"
  using assms by (simp add: addOperation_valid history_of_upd length_history_evictOldest)

lemma addOperations_bound:
  "r \<noteq> [] \<Longrightarrow> \<forall>operation \<in> set ops. truthy operation \<and> typeof operation = TyObject \<Longrightarrow>
   length (history_of rs r) \<le> MAX_HISTORY_SIZE \<Longrightarrow>
   \<exists>rs1. addOperations rs (JSString r) ops = Inr rs1 \<and>
     length (history_of rs1 r) \<le> MAX_HISTORY_SIZE"
proof (induction ops arbitrary: rs)
  case Nil
  then show ?case by simp
next
  case (Cons operation ops)
  from Cons.prems have "truthy operation" "typeof operation = TyObject" by simp_all
  with addOperation_bound [of r operation rs] Cons.prems obtain rs1 where
    s: "addOperation rs (JSString r) operation = Inr rs1"
       "length (history_of rs1 r) \<le> MAX_HISTORY_SIZE"
    by blast
  from Cons.prems have "\<forall>operation \<in> set ops. truthy operation \<and> typeof operation = TyObject"
    by simp
  with Cons.IH [of rs1] Cons.prems(1) s(2) obtain rs2 where
    "addOperations rs1 (JSString r) ops = Inr rs2"
    "length (history_of rs2 r) \<le> MAX_HISTORY_SIZE"
    by blast
  with s(1) show ?case by simp
qed

lemma addOperation_history:
  assumes "r \<noteq> []" and "truthy operation" and "typeof operation = TyObject"
  shows "\<exists>rs1. addOperation rs (JSString r) operation = Inr rs1 \<and>
           history_of rs1 r =
             (if length (history_of rs r) < MAX_HISTORY_SIZE then history_of rs r @ [operation]
              else tl (history_of rs r) @ [operation])"
  using assms by (simp add: addOperation_valid history_of_upd history_evictOldest)

lemma clear_valid:
  "r \<noteq> [] \<Longrightarrow> clear rs (JSString r) = Inr (rs(r \<mapsto> \<lparr>history = [], redoStack = []\<rparr>))"
  by (cases "rs r")
     (simp_all add: clear_def getRoomState_known getRoomState_unknown Let_def room_state_updates)

lemma canUndo_known:
  "r \<noteq> [] \<Longrightarrow> rs r = Some st \<Longrightarrow> canUndo rs (JSString r) = Inr (rs, history st \<noteq> [])"
  by (simp add: canUndo_def getRoomState_known)

lemma canRedo_known:
  "r \<noteq> [] \<Longrightarrow> rs r = Some st \<Longrightarrow> canRedo rs (JSString r) = Inr (rs, redoStack st \<noteq> [])"
  by (simp add: canRedo_def getRoomState_known)

subsection \<open>Undo and redo\<close>

text \<open>
  Claim C1. When the history of a room is not empty, \<^verbatim>\<open>undo\<close> followed at once by \<^verbatim>\<open>redo\<close>
  gives back the history it started from, and the redo stack too: the whole store is the
  one before the two calls, and \<^verbatim>\<open>redo\<close> returns the former history.
\<close>

theorem undo_redo_roundtrip:
  assumes "r \<noteq> []" and "rs r = Some st" and "history st \<noteq> []"
  shows "\<exists>rs1 h1. undo rs (JSString r) = Inr (rs1, h1) \<and>
           (\<exists>rs2 h2. redo rs1 (JSString r) = Inr (rs2, h2) \<and>
              h2 = history st \<and> rs2 r = Some st \<and> rs2 = rs)"
proof -
  let ?st1 = "st\<lparr>history := butlast (history st),
                 redoStack := redoStack st @ [last (history st)]\<rparr>"
  let ?rs1 = "rs(r \<mapsto> ?st1)"
  have u: "undo rs (JSString r) = Inr (?rs1, butlast (history st))"
    using assms by (simp add: undo_known)
  have restored: "?st1\<lparr>redoStack := butlast (redoStack ?st1),
                   history := history ?st1 @ [last (redoStack ?st1)]\<rparr> = st"
    using assms(3) by simp
  have "redo ?rs1 (JSString r) = Inr (?rs1(r \<mapsto> st), history st)"
    using assms(1,3) redo_known [of r ?rs1 ?st1] by simp
  moreover have "?rs1(r \<mapsto> st) = rs"
    using assms(2) by (simp add: fun_upd_idem)
  ultimately show ?thesis using u assms(2) by simp
qed

theorem undo_redo_roundtrip_witness:
  "\<exists>rs1 h1. undo (Map.empty(''r1'' \<mapsto> \<lparr>history = [JSObject [], JSObject [(''k'', JSNull)]], redoStack = [JSObject []]\<rparr>)) (JSString ''r1'') = Inr (rs1, h1) \<and>
      (\<exists>rs2 h2. redo rs1 (JSString ''r1'') = Inr (rs2, h2) \<and>
         h2 = [JSObject [], JSObject [(''k'', JSNull)]] \<and>
         rs2 ''r1'' = Some \<lparr>history = [JSObject [], JSObject [(''k'', JSNull)]], redoStack = [JSObject []]\<rparr> \<and>
         rs2 = Map.empty(''r1'' \<mapsto> \<lparr>history = [JSObject [], JSObject [(''k'', JSNull)]], redoStack = [JSObject []]\<rparr>))"
  using undo_redo_roundtrip [of "''r1''" "Map.empty(''r1'' \<mapsto> \<lparr>history = [JSObject [], JSObject [(''k'', JSNull)]], redoStack = [JSObject []]\<rparr>)"
      "\<lparr>history = [JSObject [], JSObject [(''k'', JSNull)]], redoStack = [JSObject []]\<rparr>"]
  by simp

text \<open>
  Claim C10. One \<^verbatim>\<open>undo\<close>, one \<^verbatim>\<open>redo\<close>, and hence any run of them, leaves the sequence
  made of the history followed by the reversed redo stack as it was: an operation only
  moves between the two arrays.
\<close>

theorem undo_redo_preserve_combined:
  assumes "r \<noteq> []" and "rs r = Some st"
  shows "(\<exists>rs1 h st1. undo rs (JSString r) = Inr (rs1, h) \<and> rs1 r = Some st1 \<and>
            history st1 @ rev (redoStack st1) = history st @ rev (redoStack st)) \<and>
         (\<exists>rs1 h st1. redo rs (JSString r) = Inr (rs1, h) \<and> rs1 r = Some st1 \<and>
            history st1 @ rev (redoStack st1) = history st @ rev (redoStack st)) \<and>
         (\<exists>rs1 st1. run_calls rs (JSString r) cs = Inr rs1 \<and> rs1 r = Some st1 \<and>
            history st1 @ rev (redoStack st1) = history st @ rev (redoStack st))"
  using undo_combined [of r rs st] redo_combined [of r rs st] run_calls_combined [of r rs st cs] assms
  unfolding combined_def by blast

theorem undo_redo_preserve_combined_witness:
  "(\<exists>rs1 h st1. undo (Map.empty(''r1'' \<mapsto> \<lparr>history = [JSObject [], JSObject [(''k'', JSNull)]], redoStack = [JSObject [(''j'', JSNull)]]\<rparr>)) (JSString ''r1'') = Inr (rs1, h) \<and>
      rs1 ''r1'' = Some st1 \<and>
      history st1 @ rev (redoStack st1) = [JSObject [], JSObject [(''k'', JSNull)], JSObject [(''j'', JSNull)]]) \<and>
   (\<exists>rs1 h st1. redo (Map.empty(''r1'' \<mapsto> \<lparr>history = [JSObject [], JSObject [(''k'', JSNull)]], redoStack = [JSObject [(''j'', JSNull)]]\<rparr>)) (JSString ''r1'') = Inr (rs1, h) \<and>
      rs1 ''r1'' = Some st1 \<and>
      history st1 @ rev (redoStack st1) = [JSObject [], JSObject [(''k'', JSNull)], JSObject [(''j'', JSNull)]]) \<and>
   (\<exists>rs1 st1. run_calls (Map.empty(''r1'' \<mapsto> \<lparr>history = [JSObject [], JSObject [(''k'', JSNull)]], redoStack = [JSObject [(''j'', JSNull)]]\<rparr>)) (JSString ''r1'') [Undo, Undo, Undo, Redo] = Inr rs1 \<and>
      rs1 ''r1'' = Some st1 \<and>
      history st1 @ rev (redoStack st1) = [JSObject [], JSObject [(''k'', JSNull)], JSObject [(''j'', JSNull)]])"
  using undo_redo_preserve_combined [of "''r1''"
      "Map.empty(''r1'' \<mapsto> \<lparr>history = [JSObject [], JSObject [(''k'', JSNull)]], redoStack = [JSObject [(''j'', JSNull)]]\<rparr>)"
      "\<lparr>history = [JSObject [], JSObject [(''k'', JSNull)]], redoStack = [JSObject [(''j'', JSNull)]]\<rparr>"
      "[Undo, Undo, Undo, Redo]"]
  by simp

subsection \<open>Appending\<close>

text \<open>
  Claim C3. After an \<^verbatim>\<open>addOperation\<close> that returns, the redo stack of the room is empty,
  whatever it held before.
\<close>

theorem append_clears_redoStack:
  assumes "addOperation rs roomId operation = Inr rs1"
  shows "\<exists>r st1. roomId = JSString r \<and> rs1 r = Some st1 \<and> redoStack st1 = []"
proof -
  from addOperation_success [OF assms] obtain r where
    r: "roomId = JSString r" "r \<noteq> []" "truthy operation" "typeof operation = TyObject"
    by blast
  with assms addOperation_valid [of r operation rs]
  have "rs1 = rs(r \<mapsto> evictOldest \<lparr>history = history_of rs r @ [operation], redoStack = []\<rparr>)"
    by simp
  with r(1) show ?thesis by (simp add: redoStack_evictOldest)
qed

theorem append_clears_redoStack_witness:
  "addOperation (Map.empty(''r1'' \<mapsto> \<lparr>history = [JSObject []], redoStack = [JSObject [(''j'', JSNull)]]\<rparr>))
      (JSString ''r1'') (JSObject [(''k'', JSNull)]) =
     Inr (Map.empty(''r1'' \<mapsto> \<lparr>history = [JSObject [], JSObject [(''k'', JSNull)]], redoStack = []\<rparr>)) \<and>
   (\<exists>r st1. JSString ''r1'' = JSString r \<and>
      (Map.empty(''r1'' \<mapsto> \<lparr>history = [JSObject [], JSObject [(''k'', JSNull)]], redoStack = []\<rparr>)) r = Some st1 \<and>
      redoStack st1 = [])"
proof -
  have a: "addOperation (Map.empty(''r1'' \<mapsto> \<lparr>history = [JSObject []], redoStack = [JSObject [(''j'', JSNull)]]\<rparr>))
      (JSString ''r1'') (JSObject [(''k'', JSNull)]) =
     Inr (Map.empty(''r1'' \<mapsto> \<lparr>history = [JSObject [], JSObject [(''k'', JSNull)]], redoStack = []\<rparr>))"
    by (simp add: addOperation_def priv_getRoomState_def evictOldest_def MAX_HISTORY_SIZE_def)
  from append_clears_redoStack [OF a] a show ?thesis by simp
qed

text \<open>
  Claim C2. From a history within the bound (a room the store does not know yet
  included), a run of \<^verbatim>\<open>addOperation\<close> calls with object operations returns after each of
  its calls, with the history within \<open>MAX_HISTORY_SIZE\<close>. One call adds the operation at
  the end and, when the history was already full, drops the first, oldest entry; the
  eviction step does not touch the redo stack.
\<close>

theorem append_bounded_fifo:
  assumes "r \<noteq> []"
    and "\<forall>operation \<in> set ops. truthy operation \<and> typeof operation = TyObject"
    and "length (history_of rs r) \<le> MAX_HISTORY_SIZE"
  shows "(\<forall>n \<le> length ops. \<exists>rs1.
            addOperations rs (JSString r) (take n ops) = Inr rs1 \<and>
            length (history_of rs1 r) \<le> MAX_HISTORY_SIZE) \<and>
         (\<forall>operation rs0. truthy operation \<and> typeof operation = TyObject \<longrightarrow>
            (\<exists>rs1. addOperation rs0 (JSString r) operation = Inr rs1 \<and>
               history_of rs1 r =
                 (if length (history_of rs0 r) < MAX_HISTORY_SIZE
                  then history_of rs0 r @ [operation]
                  else tl (history_of rs0 r) @ [operation]))) \<and>
         (\<forall>st. redoStack (evictOldest st) = redoStack st)"
proof (intro conjI allI impI)
  fix n
  have "set (take n ops) \<subseteq> set ops" by (rule set_take_subset)
  with assms(2) have "\<forall>operation \<in> set (take n ops). truthy operation \<and> typeof operation = TyObject"
    by blast
  with assms(1) show "\<exists>rs1. addOperations rs (JSString r) (take n ops) = Inr rs1 \<and>
          length (history_of rs1 r) \<le> MAX_HISTORY_SIZE"
    using assms(3) by (rule addOperations_bound)
next
  fix operation rs0
  assume "truthy operation \<and> typeof operation = TyObject"
  then have "truthy operation" "typeof operation = TyObject" by simp_all
  with assms(1) show "\<exists>rs1. addOperation rs0 (JSString r) operation = Inr rs1 \<and>
            history_of rs1 r =
              (if length (history_of rs0 r) < MAX_HISTORY_SIZE
               then history_of rs0 r @ [operation]
               else tl (history_of rs0 r) @ [operation])"
    by (rule addOperation_history)
next
  fix st
  show "redoStack (evictOldest st) = redoStack st" by (rule redoStack_evictOldest)
qed

theorem append_bounded_fifo_witness:
  "(\<exists>rs1. addOperations (Map.empty(''r1'' \<mapsto> \<lparr>history = replicate 10000 (JSObject []), redoStack = []\<rparr>))
       (JSString ''r1'') [JSObject [(''k'', JSNull)]] = Inr rs1 \<and>
     length (history_of rs1 ''r1'') \<le> MAX_HISTORY_SIZE) \<and>
   (\<exists>rs1. addOperation (Map.empty(''r1'' \<mapsto> \<lparr>history = replicate 10000 (JSObject []), redoStack = []\<rparr>))
       (JSString ''r1'') (JSObject [(''k'', JSNull)]) = Inr rs1 \<and>
     history_of rs1 ''r1'' = replicate 9999 (JSObject []) @ [JSObject [(''k'', JSNull)]])"
proof -
  let ?rs = "Map.empty(''r1'' \<mapsto> \<lparr>history = replicate 10000 (JSObject []), redoStack = []\<rparr>)"
  have h: "history_of ?rs ''r1'' = replicate 10000 (JSObject [])"
    by (simp add: history_of_def)
  have ops: "\<forall>operation \<in> set [JSObject [(''k'', JSNull)]]. truthy operation \<and> typeof operation = TyObject"
    by simp
  have len: "length (history_of ?rs ''r1'') \<le> MAX_HISTORY_SIZE"
    by (simp add: h MAX_HISTORY_SIZE_def)
  have ne: "''r1'' \<noteq> []" by simp
  note main = append_bounded_fifo [OF ne ops len]
  from main have "\<forall>n \<le> length [JSObject [(''k'', JSNull)]]. \<exists>rs1.
      addOperations ?rs (JSString ''r1'') (take n [JSObject [(''k'', JSNull)]]) = Inr rs1 \<and>
      length (history_of rs1 ''r1'') \<le> MAX_HISTORY_SIZE"
    by (rule conjunct1)
  then have "1 \<le> length [JSObject [(''k'', JSNull)]] \<longrightarrow> (\<exists>rs1.
      addOperations ?rs (JSString ''r1'') (take 1 [JSObject [(''k'', JSNull)]]) = Inr rs1 \<and>
      length (history_of rs1 ''r1'') \<le> MAX_HISTORY_SIZE)"
    by (rule spec)
  then have a: "\<exists>rs1. addOperations ?rs (JSString ''r1'') [JSObject [(''k'', JSNull)]] = Inr rs1 \<and>
      length (history_of rs1 ''r1'') \<le> MAX_HISTORY_SIZE"
    by simp
  from main have "\<forall>operation rs0. truthy operation \<and> typeof operation = TyObject \<longrightarrow>
      (\<exists>rs1. addOperation rs0 (JSString ''r1'') operation = Inr rs1 \<and>
         history_of rs1 ''r1'' =
           (if length (history_of rs0 ''r1'') < MAX_HISTORY_SIZE
            then history_of rs0 ''r1'' @ [operation]
            else tl (history_of rs0 ''r1'') @ [operation]))"
    by blast
  then have "truthy (JSObject [(''k'', JSNull)]) \<and> typeof (JSObject [(''k'', JSNull)]) = TyObject \<longrightarrow>
      (\<exists>rs1. addOperation ?rs (JSString ''r1'') (JSObject [(''k'', JSNull)]) = Inr rs1 \<and>
         history_of rs1 ''r1'' =
           (if length (history_of ?rs ''r1'') < MAX_HISTORY_SIZE
            then history_of ?rs ''r1'' @ [JSObject [(''k'', JSNull)]]
            else tl (history_of ?rs ''r1'') @ [JSObject [(''k'', JSNull)]]))"
    by blast
  then have "\<exists>rs1. addOperation ?rs (JSString ''r1'') (JSObject [(''k'', JSNull)]) = Inr rs1 \<and>
      history_of rs1 ''r1'' =
        (if length (history_of ?rs ''r1'') < MAX_HISTORY_SIZE
         then history_of ?rs ''r1'' @ [JSObject [(''k'', JSNull)]]
         else tl (history_of ?rs ''r1'') @ [JSObject [(''k'', JSNull)]])"
    by simp
  then have b: "\<exists>rs1. addOperation ?rs (JSString ''r1'') (JSObject [(''k'', JSNull)]) = Inr rs1 \<and>
      history_of rs1 ''r1'' = replicate 9999 (JSObject []) @ [JSObject [(''k'', JSNull)]]"
    by (simp add: h MAX_HISTORY_SIZE_def)
  from a b show ?thesis by (rule conjI)
qed

subsection \<open>Clearing\<close>

text \<open>
  Claim C7. \<^verbatim>\<open>clear\<close> leaves the room with an empty history and an empty redo stack, so
  that \<^verbatim>\<open>canUndo\<close> and \<^verbatim>\<open>canRedo\<close> are false; nothing records the clear, so an \<^verbatim>\<open>undo\<close>
  after it changes nothing, and neither does a \<^verbatim>\<open>redo\<close>.
\<close>

theorem clear_empties:
  assumes "r \<noteq> []"
  shows "\<exists>rs1. clear rs (JSString r) = Inr rs1 \<and>
           rs1 r = Some \<lparr>history = [], redoStack = []\<rparr> \<and>
           canUndo rs1 (JSString r) = Inr (rs1, False) \<and>
           canRedo rs1 (JSString r) = Inr (rs1, False) \<and>
           redo rs1 (JSString r) = Inr (rs1, []) \<and>
           undo rs1 (JSString r) = Inr (rs1, [])"
proof -
  let ?rs1 = "rs(r \<mapsto> \<lparr>history = [], redoStack = []\<rparr>)"
  have c: "clear rs (JSString r) = Inr ?rs1" using assms by (rule clear_valid)
  have k: "?rs1 r = Some \<lparr>history = [], redoStack = []\<rparr>" by simp
  have "canUndo ?rs1 (JSString r) = Inr (?rs1, False)"
    using canUndo_known [of r ?rs1 "\<lparr>history = [], redoStack = []\<rparr>"] assms by simp
  moreover have "canRedo ?rs1 (JSString r) = Inr (?rs1, False)"
    using canRedo_known [of r ?rs1 "\<lparr>history = [], redoStack = []\<rparr>"] assms by simp
  moreover have "redo ?rs1 (JSString r) = Inr (?rs1, [])"
    using redo_known [of r ?rs1 "\<lparr>history = [], redoStack = []\<rparr>"] assms by simp
  moreover have "undo ?rs1 (JSString r) = Inr (?rs1, [])"
    using undo_known [of r ?rs1 "\<lparr>history = [], redoStack = []\<rparr>"] assms by simp
  ultimately show ?thesis using c k by simp
qed

theorem clear_empties_witness:
  "\<exists>rs1. clear (Map.empty(''r1'' \<mapsto> \<lparr>history = [JSObject []], redoStack = [JSObject [(''j'', JSNull)]]\<rparr>)) (JSString ''r1'') = Inr rs1 \<and>
     rs1 ''r1'' = Some \<lparr>history = [], redoStack = []\<rparr> \<and>
     canUndo rs1 (JSString ''r1'') = Inr (rs1, False) \<and>
     canRedo rs1 (JSString ''r1'') = Inr (rs1, False) \<and>
     redo rs1 (JSString ''r1'') = Inr (rs1, []) \<and>
     undo rs1 (JSString ''r1'') = Inr (rs1, [])"
  using clear_empties [of "''r1''" "Map.empty(''r1'' \<mapsto> \<lparr>history = [JSObject []], redoStack = [JSObject [(''j'', JSNull)]]\<rparr>)"]
  by simp

section \<open>Properties of the member registry\<close>

subsection \<open>Auxiliary facts\<close>

lemma getRoom_known:
  "r \<noteq> [] \<Longrightarrow> reg r = Some room \<Longrightarrow> priv_getRoom reg (JSString r) = Inr (reg, r, room)"
  by (simp add: priv_getRoom_def)

lemma getRoom_unknown:
  "r \<noteq> [] \<Longrightarrow> reg r = None \<Longrightarrow> priv_getRoom reg (JSString r) = Inr (reg(r \<mapsto> []), r, [])"
  by (simp add: priv_getRoom_def)

lemma getRoom_invalid:
  "\<not> truthy roomId \<or> typeof roomId \<noteq> TyString \<Longrightarrow> priv_getRoom reg roomId = Inl InvalidRoomId"
  by (simp add: priv_getRoom_def)

lemma getUsers_known:
  "r \<noteq> [] \<Longrightarrow> reg r = Some room \<Longrightarrow> getUsers reg (JSString r) = Inr (reg, room)"
  by (simp add: getUsers_def getRoom_known)

lemma getUsers_unknown:
  "r \<noteq> [] \<Longrightarrow> reg r = None \<Longrightarrow> getUsers reg (JSString r) = Inr (reg(r \<mapsto> []), [])"
  by (simp add: getUsers_def getRoom_unknown)

lemma update_fresh: "map_of room u = None \<Longrightarrow> AList.update u c room = room @ [(u, c)]"
  by (induction room) (auto split: if_splits)

lemma addUser_present:
  assumes "r \<noteq> []" and "u \<noteq> []" and "reg r = Some room" and "map_of room u = Some c"
  shows "addUser reg (JSString r) (JSString u) = Inr (reg, c, room)"
  using assms by (simp add: addUser_def getRoom_known getUsers_known)

lemma addUser_absent_known:
  assumes "r \<noteq> []" and "u \<noteq> []" and "reg r = Some room" and "map_of room u = None"
  shows "addUser reg (JSString r) (JSString u) =
           Inr (reg(r \<mapsto> room @ [(u, USER_COLORS ! (length room mod length USER_COLORS))]),
                USER_COLORS ! (length room mod length USER_COLORS),
                room @ [(u, USER_COLORS ! (length room mod length USER_COLORS))])"
  using assms by (simp add: addUser_def getRoom_known getUsers_known update_fresh Let_def)

lemma addUser_absent_unknown:
  assumes "r \<noteq> []" and "u \<noteq> []" and "reg r = None"
  shows "addUser reg (JSString r) (JSString u) =
           Inr (reg(r \<mapsto> [(u, USER_COLORS ! (0 mod length USER_COLORS))]),
                USER_COLORS ! (0 mod length USER_COLORS),
                [(u, USER_COLORS ! (0 mod length USER_COLORS))])"
  using assms by (simp add: addUser_def getRoom_unknown getUsers_known Let_def)

lemma addUser_absent:
  assumes "r \<noteq> []" and "u \<noteq> []" and "map_of (members_of reg r) u = None"
  shows "addUser reg (JSString r) (JSString u) =
           Inr (reg(r \<mapsto> members_of reg r @
                        [(u, USER_COLORS ! (length (members_of reg r) mod length USER_COLORS))]),
                USER_COLORS ! (length (members_of reg r) mod length USER_COLORS),
                members_of reg r @
                  [(u, USER_COLORS ! (length (members_of reg r) mod length USER_COLORS))])"
proof (cases "reg r")
  case None
  with assms addUser_absent_unknown [of r u reg] show ?thesis
    by (simp add: members_of_def)
next
  case (Some room)
  with assms addUser_absent_known [of r u reg room] show ?thesis
    by (simp add: members_of_def)
qed

lemma members_of_upd: "members_of (reg(r \<mapsto> room)) r = room"
  by (simp add: members_of_def)

lemma addUsers_colors:
  "r \<noteq> [] \<Longrightarrow> distinct us \<Longrightarrow> [] \<notin> set us \<Longrightarrow>
   set us \<inter> fst ` set (members_of reg r) = {} \<Longrightarrow>
   \<exists>reg1. addUsers reg (JSString r) (map JSString us) =
     Inr (reg1, map (\<lambda>i. USER_COLORS ! ((length (members_of reg r) + i) mod length USER_COLORS))
                  [0..<length us])"
proof (induction us arbitrary: reg)
  case Nil
  then show ?case by simp
next
  case (Cons u us)
  let ?n = "length (members_of reg r)"
  let ?c = "USER_COLORS ! (?n mod length USER_COLORS)"
  let ?room1 = "members_of reg r @ [(u, ?c)]"
  let ?reg1 = "reg(r \<mapsto> ?room1)"
  from Cons.prems have u: "u \<noteq> []" by auto
  from Cons.prems have "u \<notin> fst ` set (members_of reg r)" by auto
  then have absent: "map_of (members_of reg r) u = None"
    by (simp add: map_of_eq_None_iff)
  have step: "addUser reg (JSString r) (JSString u) = Inr (?reg1, ?c, ?room1)"
    using Cons.prems(1) u absent by (rule addUser_absent)
  have m1: "members_of ?reg1 r = ?room1" by (rule members_of_upd)
  from Cons.prems have d: "distinct us" "[] \<notin> set us" by auto
  from Cons.prems have "set us \<inter> fst ` set ?room1 = {}" by auto
  with m1 have disj: "set us \<inter> fst ` set (members_of ?reg1 r) = {}" by simp
  from Cons.IH [OF Cons.prems(1) d disj] obtain reg2 where
    rest: "addUsers ?reg1 (JSString r) (map JSString us) =
       Inr (reg2, map (\<lambda>i. USER_COLORS ! ((length (members_of ?reg1 r) + i) mod length USER_COLORS))
                    [0..<length us])"
    by blast
  have len: "length (members_of ?reg1 r) = Suc ?n" by (simp add: members_of_upd)
  have cols: "map (\<lambda>i. USER_COLORS ! ((?n + i) mod length USER_COLORS)) [0..<length (u # us)] =
      ?c # map (\<lambda>i. USER_COLORS ! ((Suc ?n + i) mod length USER_COLORS)) [0..<length us]"
    by (simp add: upt_rec [of 0] map_Suc_upt [symmetric] del: upt_Suc)
  from step rest len cols show ?case by simp
qed

lemma addUsers_fresh:
  assumes "r \<noteq> []" and "reg r = None" and "distinct us" and "[] \<notin> set us"
  shows "\<exists>reg1 colors. addUsers reg (JSString r) (map JSString us) = Inr (reg1, colors) \<and>
           length colors = length us \<and>
           (\<forall>i. 1 \<le> i \<and> i \<le> length us \<longrightarrow>
              colors ! (i - 1) = USER_COLORS ! ((i - 1) mod length USER_COLORS))"
proof -
  from assms(2) have m: "members_of reg r = []" by (simp add: members_of_def)
  then have "set us \<inter> fst ` set (members_of reg r) = {}" by simp
  from addUsers_colors [OF assms(1) assms(3) assms(4) this] m obtain reg1 where
    run: "addUsers reg (JSString r) (map JSString us) =
            Inr (reg1, map (\<lambda>i. USER_COLORS ! (i mod length USER_COLORS)) [0..<length us])"
    by auto
  let ?colors = "map (\<lambda>i. USER_COLORS ! (i mod length USER_COLORS)) [0..<length us]"
  have "length ?colors = length us" by simp
  moreover have "\<forall>i. 1 \<le> i \<and> i \<le> length us \<longrightarrow>
      ?colors ! (i - 1) = USER_COLORS ! ((i - 1) mod length USER_COLORS)"
  proof (intro allI impI)
    fix i
    assume "1 \<le> i \<and> i \<le> length us"
    then have "i - 1 < length us" by arith
    then show "?colors ! (i - 1) = USER_COLORS ! ((i - 1) mod length USER_COLORS)"
      by simp
  qed
  ultimately show ?thesis using run by blast
qed

lemma addUser_twice:
  assumes "r \<noteq> []" and "u \<noteq> []" and "addUser reg (JSString r) (JSString u) = Inr (reg1, c, users)"
  shows "addUser reg1 (JSString r) (JSString u) = Inr (reg1, c, users)"
proof (cases "map_of (members_of reg r) u")
  case None
  let ?c = "USER_COLORS ! (length (members_of reg r) mod length USER_COLORS)"
  let ?room = "members_of reg r @ [(u, ?c)]"
  from addUser_absent [of r u reg] assms None
  have eqs: "reg1 = reg(r \<mapsto> ?room)" "c = ?c" "users = ?room" by simp_all
  have k: "(reg(r \<mapsto> ?room)) r = Some ?room" by simp
  from None have p: "map_of ?room u = Some ?c" by (simp add: map_add_Some_iff)
  from addUser_present [of r u "reg(r \<mapsto> ?room)" ?room ?c] assms(1,2) k p eqs
  show ?thesis by simp
next
  case (Some c0)
  then obtain room where room: "reg r = Some room" "map_of room u = Some c0"
    by (cases "reg r") (simp_all add: members_of_def)
  note same = addUser_present [of r u reg room c0]
  from same assms room have "reg1 = reg" "c = c0" "users = room" by simp_all
  with same assms(1,2) room show ?thesis by simp
qed

lemma length_USER_COLORS: "length USER_COLORS = 20"
  by (simp add: USER_COLORS_def)

subsection \<open>Joining\<close>

text \<open>
  Claim C6. For a room and a member identifier that are non-empty strings: \<^verbatim>\<open>addUser\<close> of a
  member already in the room returns the colour the member has, with the registry and the
  member list as they were; \<^verbatim>\<open>addUser\<close> of a new member gives the colour at the position
  (number of members before the insertion) modulo the palette size and adds the member at
  the end; repeating a call that returned gives the same result and changes nothing; and
  when distinct members join a room the registry does not know, one after the other, the
  i-th of them (counted from 1) gets the colour at position (i - 1) modulo the palette
  size.
\<close>

theorem addUser_idempotent_positional:
  assumes "r \<noteq> []" and "u \<noteq> []"
  shows "(\<forall>room c. reg r = Some room \<and> map_of room u = Some c \<longrightarrow>
            addUser reg (JSString r) (JSString u) = Inr (reg, c, room)) \<and>
         (map_of (members_of reg r) u = None \<longrightarrow>
            addUser reg (JSString r) (JSString u) =
              Inr (reg(r \<mapsto> members_of reg r @
                           [(u, USER_COLORS ! (length (members_of reg r) mod length USER_COLORS))]),
                   USER_COLORS ! (length (members_of reg r) mod length USER_COLORS),
                   members_of reg r @
                     [(u, USER_COLORS ! (length (members_of reg r) mod length USER_COLORS))])) \<and>
         (\<forall>reg1 c users. addUser reg (JSString r) (JSString u) = Inr (reg1, c, users) \<longrightarrow>
            addUser reg1 (JSString r) (JSString u) = Inr (reg1, c, users)) \<and>
         (\<forall>us. reg r = None \<and> distinct us \<and> [] \<notin> set us \<longrightarrow>
            (\<exists>reg1 colors. addUsers reg (JSString r) (map JSString us) = Inr (reg1, colors) \<and>
               length colors = length us \<and>
               (\<forall>i. 1 \<le> i \<and> i \<le> length us \<longrightarrow>
                  colors ! (i - 1) = USER_COLORS ! ((i - 1) mod length USER_COLORS))))"
proof (intro conjI allI impI)
  fix room c
  assume "reg r = Some room \<and> map_of room u = Some c"
  with assms show "addUser reg (JSString r) (JSString u) = Inr (reg, c, room)"
    by (simp add: addUser_present)
next
  assume "map_of (members_of reg r) u = None"
  with assms show "addUser reg (JSString r) (JSString u) =
      Inr (reg(r \<mapsto> members_of reg r @
                   [(u, USER_COLORS ! (length (members_of reg r) mod length USER_COLORS))]),
           USER_COLORS ! (length (members_of reg r) mod length USER_COLORS),
           members_of reg r @
             [(u, USER_COLORS ! (length (members_of reg r) mod length USER_COLORS))])"
    by (rule addUser_absent)
next
  fix reg1 c users
  assume "addUser reg (JSString r) (JSString u) = Inr (reg1, c, users)"
  with assms show "addUser reg1 (JSString r) (JSString u) = Inr (reg1, c, users)"
    by (rule addUser_twice)
next
  fix us :: "string list"
  assume "reg r = None \<and> distinct us \<and> [] \<notin> set us"
  with assms(1) show "\<exists>reg1 colors. addUsers reg (JSString r) (map JSString us) = Inr (reg1, colors) \<and>
      length colors = length us \<and>
      (\<forall>i. 1 \<le> i \<and> i \<le> length us \<longrightarrow>
         colors ! (i - 1) = USER_COLORS ! ((i - 1) mod length USER_COLORS))"
    using addUsers_fresh [of r reg us] by blast
qed

theorem addUser_idempotent_positional_witness:
  "addUser (Map.empty(''r1'' \<mapsto> [(''s1'', ''#FF5733'')])) (JSString ''r1'') (JSString ''s1'') =
     Inr (Map.empty(''r1'' \<mapsto> [(''s1'', ''#FF5733'')]), ''#FF5733'', [(''s1'', ''#FF5733'')]) \<and>
   addUser (Map.empty(''r1'' \<mapsto> [(''s1'', ''#FF5733'')])) (JSString ''r1'') (JSString ''s2'') =
     Inr (Map.empty(''r1'' \<mapsto> [(''s1'', ''#FF5733''), (''s2'', ''#33FF57'')]), ''#33FF57'',
          [(''s1'', ''#FF5733''), (''s2'', ''#33FF57'')]) \<and>
   (\<exists>reg1 colors.
      addUsers Map.empty (JSString ''r1'') [JSString ''s1'', JSString ''s2'', JSString ''s3''] =
        Inr (reg1, colors) \<and>
      length colors = 3 \<and> colors ! 0 = ''#FF5733'' \<and> colors ! 1 = ''#33FF57'' \<and>
      colors ! 2 = ''#3357FF'')"
proof -
  let ?reg = "Map.empty(''r1'' \<mapsto> [(''s1'', ''#FF5733'')])"
  have r: "''r1'' \<noteq> []" and s1: "''s1'' \<noteq> []" and s2: "''s2'' \<noteq> []" by simp_all
  note present = addUser_idempotent_positional [OF r s1, of ?reg]
  then have "\<forall>room c. ?reg ''r1'' = Some room \<and> map_of room ''s1'' = Some c \<longrightarrow>
      addUser ?reg (JSString ''r1'') (JSString ''s1'') = Inr (?reg, c, room)"
    by (rule conjunct1)
  then have a: "addUser ?reg (JSString ''r1'') (JSString ''s1'') =
      Inr (?reg, ''#FF5733'', [(''s1'', ''#FF5733'')])"
    by simp
  note absent = addUser_idempotent_positional [OF r s2, of ?reg]
  then have "map_of (members_of ?reg ''r1'') ''s2'' = None \<longrightarrow>
      addUser ?reg (JSString ''r1'') (JSString ''s2'') =
        Inr (?reg(''r1'' \<mapsto> members_of ?reg ''r1'' @
               [(''s2'', USER_COLORS ! (length (members_of ?reg ''r1'') mod length USER_COLORS))]),
             USER_COLORS ! (length (members_of ?reg ''r1'') mod length USER_COLORS),
             members_of ?reg ''r1'' @
               [(''s2'', USER_COLORS ! (length (members_of ?reg ''r1'') mod length USER_COLORS))])"
    by blast
  then have b: "addUser ?reg (JSString ''r1'') (JSString ''s2'') =
      Inr (Map.empty(''r1'' \<mapsto> [(''s1'', ''#FF5733''), (''s2'', ''#33FF57'')]), ''#33FF57'',
           [(''s1'', ''#FF5733''), (''s2'', ''#33FF57'')])"
    by (simp add: members_of_def length_USER_COLORS) (simp add: USER_COLORS_def)
  note fresh = addUser_idempotent_positional [OF r s1, of Map.empty]
  then have "\<forall>us. Map.empty ''r1'' = (None :: room option) \<and> distinct us \<and> [] \<notin> set us \<longrightarrow>
      (\<exists>reg1 colors. addUsers Map.empty (JSString ''r1'') (map JSString us) = Inr (reg1, colors) \<and>
         length colors = length us \<and>
         (\<forall>i. 1 \<le> i \<and> i \<le> length us \<longrightarrow>
            colors ! (i - 1) = USER_COLORS ! ((i - 1) mod length USER_COLORS)))"
    by blast
  then have "Map.empty ''r1'' = (None :: room option) \<and> distinct [''s1'', ''s2'', ''s3''] \<and>
        [] \<notin> set [''s1'', ''s2'', ''s3''] \<longrightarrow>
      (\<exists>reg1 colors.
        addUsers Map.empty (JSString ''r1'') (map JSString [''s1'', ''s2'', ''s3'']) = Inr (reg1, colors) \<and>
        length colors = length [''s1'', ''s2'', ''s3''] \<and>
        (\<forall>i. 1 \<le> i \<and> i \<le> length [''s1'', ''s2'', ''s3''] \<longrightarrow>
           colors ! (i - 1) = USER_COLORS ! ((i - 1) mod length USER_COLORS)))"
    by (rule spec)
  then have "\<exists>reg1 colors.
      addUsers Map.empty (JSString ''r1'') (map JSString [''s1'', ''s2'', ''s3'']) = Inr (reg1, colors) \<and>
      length colors = length [''s1'', ''s2'', ''s3''] \<and>
      (\<forall>i. 1 \<le> i \<and> i \<le> length [''s1'', ''s2'', ''s3''] \<longrightarrow>
         colors ! (i - 1) = USER_COLORS ! ((i - 1) mod length USER_COLORS))"
    by simp
  then obtain reg1 colors where
    run: "addUsers Map.empty (JSString ''r1'') [JSString ''s1'', JSString ''s2'', JSString ''s3''] =
            Inr (reg1, colors)"
    and len: "length colors = 3"
    and nth: "\<forall>i. 1 \<le> i \<and> i \<le> (3::nat) \<longrightarrow>
                colors ! (i - 1) = USER_COLORS ! ((i - 1) mod length USER_COLORS)"
    by auto
  from nth [rule_format, of 1] have c0: "colors ! 0 = ''#FF5733''"
    by (simp add: USER_COLORS_def)
  from nth [rule_format, of 2] have c1: "colors ! 1 = ''#33FF57''"
    by (simp add: USER_COLORS_def)
  from nth [rule_format, of 3] have c2: "colors ! 2 = ''#3357FF''"
    by (simp add: USER_COLORS_def)
  from run len c0 c1 c2 have c: "\<exists>reg1 colors.
      addUsers Map.empty (JSString ''r1'') [JSString ''s1'', JSString ''s2'', JSString ''s3''] =
        Inr (reg1, colors) \<and>
      length colors = 3 \<and> colors ! 0 = ''#FF5733'' \<and> colors ! 1 = ''#33FF57'' \<and>
      colors ! 2 = ''#3357FF''"
    by blast
  from a b c show ?thesis by blast
qed

subsection \<open>Reading the members\<close>

text \<open>
  Claim C5. \<^verbatim>\<open>getUsers\<close> on a room the registry does not know returns the empty sequence,
  but it goes through \<^verbatim>\<open>_getRoom\<close>, which creates the room: afterwards the registry holds
  an entry for it. The other two readers, \<^verbatim>\<open>getUserCount\<close> and \<^verbatim>\<open>hasUser\<close>, test
  \<^verbatim>\<open>rooms.has\<close> first and answer without touching the registry.
\<close>

theorem getUsers_unknown_room_creates_entry:
  "getUsers Map.empty (JSString ''lobby'') = Inr (Map.empty(''lobby'' \<mapsto> []), []) \<and>
   (Map.empty(''lobby'' \<mapsto> [])) ''lobby'' \<noteq> (Map.empty :: registry) ''lobby'' \<and>
   getUserCount Map.empty (JSString ''lobby'') = 0 \<and>
   hasUser Map.empty (JSString ''lobby'') (JSString ''s1'') = False"
  by (simp add: getUsers_def priv_getRoom_def getUserCount_def hasUser_def)

section \<open>Properties of the gateway\<close>

subsection \<open>Auxiliary facts\<close>

lemma room_id_char_alphabet: "room_id_char c = (c \<in> set room_id_alphabet)"
proof -
  have "\<forall>c. room_id_char c = (c \<in> set room_id_alphabet)" by code_simp
  then show ?thesis by (rule spec)
qed

lemma sanitizeRoomId_default: "sanitizeRoomId JSNull = ''default-room''"
  by (simp add: sanitizeRoomId_def)

lemma default_room_ok:
  "''default-room'' \<noteq> [] \<and> length ''default-room'' \<le> 50 \<and>
   set ''default-room'' \<subseteq> set room_id_alphabet"
  by (simp add: room_id_alphabet_def)

lemma sanitizeRoomId_cases:
  "sanitizeRoomId roomId = ''default-room'' \<or>
   (\<exists>s. roomId = JSString s \<and> take 50 (filter room_id_char s) \<noteq> [] \<and>
        sanitizeRoomId roomId = take 50 (filter room_id_char s))"
  by (cases roomId) (simp_all add: sanitizeRoomId_def Let_def)

lemma sanitizeRoomId_ok:
  "sanitizeRoomId roomId \<noteq> [] \<and> length (sanitizeRoomId roomId) \<le> 50 \<and>
   set (sanitizeRoomId roomId) \<subseteq> set room_id_alphabet"
proof -
  from sanitizeRoomId_cases [of roomId] show ?thesis
  proof
    assume "sanitizeRoomId roomId = ''default-room''"
    with default_room_ok show ?thesis by simp
  next
    assume "\<exists>s. roomId = JSString s \<and> take 50 (filter room_id_char s) \<noteq> [] \<and>
        sanitizeRoomId roomId = take 50 (filter room_id_char s)"
    then obtain s where s: "take 50 (filter room_id_char s) \<noteq> []"
      "sanitizeRoomId roomId = take 50 (filter room_id_char s)" by blast
    have "set (take 50 (filter room_id_char s)) \<subseteq> set (filter room_id_char s)"
      by (rule set_take_subset)
    also have "\<dots> \<subseteq> set room_id_alphabet"
      by (auto simp add: room_id_char_alphabet)
    finally have "set (take 50 (filter room_id_char s)) \<subseteq> set room_id_alphabet" .
    with s show ?thesis by simp
  qed
qed

lemma getRoom_error_iff:
  "(priv_getRoom reg roomId = Inl InvalidRoomId) = (\<forall>s. roomId = JSString s \<longrightarrow> s = [])"
  by (cases roomId) (simp_all add: priv_getRoom_def split: option.splits)

lemma getRoomState_error_iff:
  "(priv_getRoomState rs roomId = Inl InvalidRoomId) = (\<forall>s. roomId = JSString s \<longrightarrow> s = [])"
  by (cases roomId) (simp_all add: priv_getRoomState_def Let_def split: option.splits)

lemma getRoom_accepts:
  "s \<noteq> [] \<Longrightarrow> \<exists>reg1 room. priv_getRoom reg (JSString s) = Inr (reg1, s, room)"
  by (cases "reg s") (simp_all add: getRoom_known getRoom_unknown)

lemma getRoomState_accepts:
  "s \<noteq> [] \<Longrightarrow> \<exists>rs1 st. priv_getRoomState rs (JSString s) = Inr (rs1, s, st)"
  by (cases "rs s") (simp_all add: getRoomState_known getRoomState_unknown)

lemma numeric_point_iff:
  "numeric_point v =
     (truthy v \<and> typeof v = TyObject \<and> typeof (get_prop v ''x'') = TyNumber \<and>
      typeof (get_prop v ''y'') = TyNumber)"
  by (cases v) simp_all

lemma width_in_range_iff:
  "v \<noteq> JSNumber NaN \<Longrightarrow>
   width_in_range v =
     (typeof v = TyNumber \<and> \<not> js_less v (JSNumber (Finite 1)) \<and>
      \<not> js_less (JSNumber (Finite 100)) v)"
proof (cases v)
  case (JSNumber n)
  assume "v \<noteq> JSNumber NaN"
  with JSNumber show ?thesis by (cases n) auto
qed simp_all

lemma color_present_iff: "color_present v = (truthy v \<and> typeof v = TyString)"
  by (cases v) simp_all

lemma tool_iff:
  "(v = JSString ''brush'' \<or> v = JSString ''eraser'') =
     (truthy v \<and> \<not> (v \<noteq> JSString ''brush'' \<and> v \<noteq> JSString ''eraser''))"
  by auto

lemma isValidOperation_object:
  "get_prop (JSObject ps) ''lineWidth'' \<noteq> JSNumber NaN \<Longrightarrow>
   isValidOperation (JSObject ps) = well_formed_operation (JSObject ps)"
  unfolding isValidOperation_def well_formed_operation.simps
    numeric_point_iff color_present_iff
    width_in_range_iff [of "get_prop (JSObject ps) ''lineWidth''"]
    tool_iff [of "get_prop (JSObject ps) ''tool''"]
  by (simp only: truthy.simps typeof.simps) argo

lemma isValidOperation_well_formed:
  "get_prop opn ''lineWidth'' \<noteq> JSNumber NaN \<Longrightarrow> isValidOperation opn = well_formed_operation opn"
proof (cases opn)
  case (JSObject ps)
  assume "get_prop opn ''lineWidth'' \<noteq> JSNumber NaN"
  with JSObject show ?thesis using isValidOperation_object [of ps] by simp
qed (simp_all add: isValidOperation_def)

lemma isValidOperation_is_object: "isValidOperation opn \<Longrightarrow> truthy opn \<and> typeof opn = TyObject"
  by (cases "\<not> truthy opn \<or> typeof opn \<noteq> TyObject") (simp_all add: isValidOperation_def)

lemma on_DRAW_invalid: "\<not> isValidOperation data \<Longrightarrow> on_DRAW data srv sess = (srv, sess)"
  by (simp add: on_DRAW_def)

lemma addOperation_error_iff:
  "(addOperation rs roomId operation = Inl InvalidOperation) = (\<forall>ps. operation \<noteq> JSObject ps)"
proof (cases "truthy operation \<and> typeof operation = TyObject")
  case False
  then have "addOperation rs roomId operation = Inl InvalidOperation"
    by (simp add: addOperation_bad_operation)
  moreover from False have "\<forall>ps. operation \<noteq> JSObject ps" by auto
  ultimately show ?thesis by simp
next
  case True
  then obtain ps where ps: "operation = JSObject ps" using object_iff [of operation] by blast
  show ?thesis
  proof (cases "truthy roomId \<and> typeof roomId = TyString")
    case False
    then have "addOperation rs roomId operation = Inl InvalidRoomId"
      using True by (simp add: addOperation_def getRoomState_invalid)
    with ps show ?thesis by simp
  next
    case valid: True
    then obtain r where "roomId = JSString r" "r \<noteq> []" using string_iff [of roomId] by blast
    with True ps show ?thesis by (simp add: addOperation_valid)
  qed
qed

lemma undoRedoState_known:
  "r \<noteq> [] \<Longrightarrow> rs r = Some st \<Longrightarrow> undoRedoState rs (JSString r) = rs"
  by (simp add: undoRedoState_def canUndo_known canRedo_known)

lemma on_DRAW_valid:
  assumes "truthy (currentRoom sess)" and "typeof (currentRoom sess) = TyString"
    and "isValidOperation data"
  shows "\<exists>rs1. addOperation (roomStates srv) (currentRoom sess) data = Inr rs1 \<and>
           on_DRAW data srv sess = (srv\<lparr>roomStates := rs1\<rparr>, sess)"
proof -
  from assms(1,2) obtain r where r: "currentRoom sess = JSString r" "r \<noteq> []"
    using string_iff [of "currentRoom sess"] by blast
  from assms(3) have obj: "truthy data" "typeof data = TyObject"
    using isValidOperation_is_object [of data] by simp_all
  let ?rs1 = "(roomStates srv)(r \<mapsto> evictOldest \<lparr>history = history_of (roomStates srv) r @ [data], redoStack = []\<rparr>)"
  have a: "addOperation (roomStates srv) (JSString r) data = Inr ?rs1"
    using r(2) obj by (rule addOperation_valid)
  have "undoRedoState ?rs1 (JSString r) = ?rs1"
    using r(2) by (rule undoRedoState_known) simp
  with a r assms show ?thesis by (simp add: on_DRAW_def)
qed

lemma join_a:
  "on_JOIN_ROOM ''s1'' (JSString ''a'') initial_server initial_session =
     (\<lparr>rooms = Map.empty(''a'' \<mapsto> [(''s1'', ''#FF5733'')]),
       roomStates = Map.empty(''a'' \<mapsto> \<lparr>history = [], redoStack = []\<rparr>)\<rparr>,
      \<lparr>currentRoom = JSString ''a'', userColor = JSString ''#FF5733''\<rparr>)"
  by (simp add: on_JOIN_ROOM_def initial_server_def initial_session_def sanitizeRoomId_def
      room_id_char_def less_eq_char_def addUser_def priv_getRoom_def getUsers_def
      USER_COLORS_def getHistory_def priv_getRoomState_def undoRedoState_def canUndo_def
      canRedo_def Let_def)

subsection \<open>Room identifiers through the handlers\<close>

text \<open>
  A call on room \<open>r\<close> changes no other key of the store or of the registry; hence
  every handler keeps the room identifiers within the restriction.
\<close>

lemma getRoomState_total:
  assumes "r \<noteq> []"
  shows "\<exists>rs1 st. priv_getRoomState rs (JSString r) = Inr (rs1, r, st) \<and>
           (\<forall>k. k \<noteq> r \<longrightarrow> rs1 k = rs k)"
proof (cases "rs r")
  case None
  with assms show ?thesis by (simp add: getRoomState_unknown)
next
  case (Some st)
  with assms show ?thesis by (simp add: getRoomState_known)
qed

lemma getRoomState_empty_id: "priv_getRoomState rs (JSString []) = Inl InvalidRoomId"
  by (simp add: priv_getRoomState_def)

lemma getHistory_frame:
  assumes "getHistory rs (JSString r) = Inr (rs2, h)" and "k \<noteq> r"
  shows "rs2 k = rs k"
proof (cases "r = []")
  case True
  with assms(1) show ?thesis by (simp add: getHistory_def getRoomState_empty_id)
next
  case False
  from getRoomState_total [OF False, of rs] obtain rs1 st where
    g: "priv_getRoomState rs (JSString r) = Inr (rs1, r, st)" "\<forall>k. k \<noteq> r \<longrightarrow> rs1 k = rs k"
    by blast
  from assms(1) g(1) have "rs2 = rs1" by (simp add: getHistory_def)
  with g(2) assms(2) show ?thesis by simp
qed

lemma canUndo_frame:
  assumes "canUndo rs (JSString r) = Inr (rs2, b)" and "k \<noteq> r"
  shows "rs2 k = rs k"
proof (cases "r = []")
  case True
  with assms(1) show ?thesis by (simp add: canUndo_def getRoomState_empty_id)
next
  case False
  from getRoomState_total [OF False, of rs] obtain rs1 st where
    g: "priv_getRoomState rs (JSString r) = Inr (rs1, r, st)" "\<forall>k. k \<noteq> r \<longrightarrow> rs1 k = rs k"
    by blast
  from assms(1) g(1) have "rs2 = rs1" by (simp add: canUndo_def)
  with g(2) assms(2) show ?thesis by simp
qed

lemma canRedo_frame:
  assumes "canRedo rs (JSString r) = Inr (rs2, b)" and "k \<noteq> r"
  shows "rs2 k = rs k"
proof (cases "r = []")
  case True
  with assms(1) show ?thesis by (simp add: canRedo_def getRoomState_empty_id)
next
  case False
  from getRoomState_total [OF False, of rs] obtain rs1 st where
    g: "priv_getRoomState rs (JSString r) = Inr (rs1, r, st)" "\<forall>k. k \<noteq> r \<longrightarrow> rs1 k = rs k"
    by blast
  from assms(1) g(1) have "rs2 = rs1" by (simp add: canRedo_def)
  with g(2) assms(2) show ?thesis by simp
qed

lemma undo_frame:
  assumes "undo rs (JSString r) = Inr (rs2, h)" and "k \<noteq> r"
  shows "rs2 k = rs k"
proof (cases "r = []")
  case True
  with assms(1) show ?thesis by (simp add: undo_def getRoomState_empty_id)
next
  case False
  from getRoomState_total [OF False, of rs] obtain rs1 st where
    g: "priv_getRoomState rs (JSString r) = Inr (rs1, r, st)" "\<forall>k. k \<noteq> r \<longrightarrow> rs1 k = rs k"
    by blast
  from assms(1) g(1) have "rs2 k = rs1 k"
    using assms(2) by (auto simp add: undo_def Let_def split: if_splits)
  with g(2) assms(2) show ?thesis by simp
qed

lemma redo_frame:
  assumes "redo rs (JSString r) = Inr (rs2, h)" and "k \<noteq> r"
  shows "rs2 k = rs k"
proof (cases "r = []")
  case True
  with assms(1) show ?thesis by (simp add: redo_def getRoomState_empty_id)
next
  case False
  from getRoomState_total [OF False, of rs] obtain rs1 st where
    g: "priv_getRoomState rs (JSString r) = Inr (rs1, r, st)" "\<forall>k. k \<noteq> r \<longrightarrow> rs1 k = rs k"
    by blast
  from assms(1) g(1) have "rs2 k = rs1 k"
    using assms(2) by (auto simp add: redo_def Let_def split: if_splits)
  with g(2) assms(2) show ?thesis by simp
qed

lemma clear_frame:
  assumes "clear rs (JSString r) = Inr rs2" and "k \<noteq> r"
  shows "rs2 k = rs k"
proof (cases "r = []")
  case True
  with assms(1) show ?thesis by (simp add: clear_def getRoomState_empty_id)
next
  case False
  with assms show ?thesis by (auto simp add: clear_valid)
qed

lemma addOperation_frame:
  assumes "addOperation rs (JSString r) operation = Inr rs2" and "k \<noteq> r"
  shows "rs2 k = rs k"
proof -
  from addOperation_success [OF assms(1)] have v: "r \<noteq> []" "truthy operation" "typeof operation = TyObject"
    by simp_all
  from addOperation_valid [OF v, of rs] assms show ?thesis by auto
qed

lemma undoRedoState_frame:
  assumes "k \<noteq> r"
  shows "undoRedoState rs (JSString r) k = rs k"
proof (cases "canUndo rs (JSString r)")
  case (Inl e)
  then show ?thesis by (simp add: undoRedoState_def)
next
  case (Inr t)
  obtain rs1 cu where t: "t = (rs1, cu)" by (cases t)
  from Inr t assms have f1: "rs1 k = rs k" by (simp add: canUndo_frame)
  show ?thesis
  proof (cases "canRedo rs1 (JSString r)")
    case (Inl e)
    with Inr t f1 show ?thesis by (simp add: undoRedoState_def)
  next
    case inner: (Inr t2)
    obtain rs2 cr where t2: "t2 = (rs2, cr)" by (cases t2)
    from inner t2 assms have "rs2 k = rs1 k" by (simp add: canRedo_frame)
    with Inr t inner t2 f1 show ?thesis by (simp add: undoRedoState_def)
  qed
qed

lemma getRoom_total:
  assumes "r \<noteq> []"
  shows "\<exists>reg1 room. priv_getRoom reg (JSString r) = Inr (reg1, r, room) \<and>
           (\<forall>k. k \<noteq> r \<longrightarrow> reg1 k = reg k)"
proof (cases "reg r")
  case None
  with assms show ?thesis by (simp add: getRoom_unknown)
next
  case (Some room)
  with assms show ?thesis by (simp add: getRoom_known)
qed

lemma getRoom_empty_id: "priv_getRoom reg (JSString []) = Inl InvalidRoomId"
  by (simp add: priv_getRoom_def)

lemma addUser_frame:
  assumes "addUser reg (JSString r) (JSString u) = Inr (reg1, c, users)" and "k \<noteq> r"
  shows "reg1 k = reg k"
proof -
  have u: "u \<noteq> []"
  proof (rule ccontr)
    assume "\<not> u \<noteq> []"
    then have "addUser reg (JSString r) (JSString u) = Inl InvalidUserId"
      by (simp add: addUser_def)
    with assms(1) show False by simp
  qed
  have r: "r \<noteq> []"
  proof (rule ccontr)
    assume "\<not> r \<noteq> []"
    with u have "addUser reg (JSString r) (JSString u) = Inl InvalidRoomId"
      by (simp add: addUser_def getRoom_empty_id)
    with assms(1) show False by simp
  qed
  show ?thesis
  proof (cases "map_of (members_of reg r) u")
    case None
    from addUser_absent [OF r u None] assms show ?thesis by auto
  next
    case (Some c0)
    then obtain room where room: "reg r = Some room" "map_of room u = Some c0"
      by (cases "reg r") (simp_all add: members_of_def)
    from addUser_present [of r u reg room c0] r u room assms(1) have "reg1 = reg" by simp
    then show ?thesis by simp
  qed
qed

lemma removeUser_frame:
  assumes "removeUser reg (JSString r) userId = Inr reg1" and "k \<noteq> r"
  shows "reg1 k = reg k"
proof (cases "r = []")
  case True
  with assms(1) show ?thesis by (simp add: removeUser_def getRoom_empty_id)
next
  case False
  from getRoom_total [OF False, of reg] obtain reg0 room where
    g: "priv_getRoom reg (JSString r) = Inr (reg0, r, room)" "\<forall>k. k \<noteq> r \<longrightarrow> reg0 k = reg k"
    by blast
  from assms(1) g(1) have "reg1 k = reg0 k"
    using assms(2) by (auto simp add: removeUser_def Let_def split: if_splits)
  with g(2) assms(2) show ?thesis by simp
qed

lemma deleteRoom_frame: "k \<noteq> r \<Longrightarrow> deleteRoom rs (JSString r) k = rs k"
  by (simp add: deleteRoom_def)

lemma keys_ok_frame:
  assumes "\<forall>k. m k \<noteq> None \<longrightarrow> room_id_ok k" and "room_id_ok r"
    and "\<forall>k. k \<noteq> r \<longrightarrow> m2 k = m k"
  shows "\<forall>k. m2 k \<noteq> None \<longrightarrow> room_id_ok k"
proof (intro allI impI)
  fix k
  assume present: "m2 k \<noteq> None"
  show "room_id_ok k"
  proof (cases "k = r")
    case True
    with assms(2) show ?thesis by simp
  next
    case False
    with assms(3) present have "m k \<noteq> None" by simp
    with assms(1) show ?thesis by simp
  qed
qed

lemma sanitized_store_update:
  assumes "room_ids_sanitized srv sess" and "currentRoom sess = JSString r"
    and "\<forall>k. k \<noteq> r \<longrightarrow> rs2 k = roomStates srv k"
  shows "room_ids_sanitized (srv\<lparr>roomStates := rs2\<rparr>) sess"
proof -
  from assms(1,2) have ok: "room_id_ok r" by (simp add: room_ids_sanitized_def)
  from assms(1) have "\<forall>k. roomStates srv k \<noteq> None \<longrightarrow> room_id_ok k"
    by (simp add: room_ids_sanitized_def)
  from keys_ok_frame [OF this ok assms(3)] assms(1) show ?thesis
    by (simp add: room_ids_sanitized_def)
qed

lemma current_room_cases:
  assumes "room_ids_sanitized srv sess"
  shows "\<not> truthy (currentRoom sess) \<or> (\<exists>r. currentRoom sess = JSString r \<and> room_id_ok r)"
  using assms by (auto simp add: room_ids_sanitized_def)

lemma on_UNDO_sanitized:
  assumes "room_ids_sanitized srv sess"
  shows "room_ids_sanitized (fst (on_UNDO srv sess)) (snd (on_UNDO srv sess))"
proof (cases "truthy (currentRoom sess)")
  case False
  with assms show ?thesis by (simp add: on_UNDO_def)
next
  case True
  with current_room_cases [OF assms] obtain r where r: "currentRoom sess = JSString r" by blast
  show ?thesis
  proof (cases "undo (roomStates srv) (JSString r)")
    case (Inl e)
    with True r assms show ?thesis by (simp add: on_UNDO_def)
  next
    case (Inr t)
    obtain rs1 h where t: "t = (rs1, h)" by (cases t)
    have "\<forall>k. k \<noteq> r \<longrightarrow> undoRedoState rs1 (JSString r) k = roomStates srv k"
      using Inr t by (simp add: undoRedoState_frame undo_frame)
    from sanitized_store_update [OF assms r this] True r Inr t show ?thesis
      by (simp add: on_UNDO_def)
  qed
qed

lemma on_REDO_sanitized:
  assumes "room_ids_sanitized srv sess"
  shows "room_ids_sanitized (fst (on_REDO srv sess)) (snd (on_REDO srv sess))"
proof (cases "truthy (currentRoom sess)")
  case False
  with assms show ?thesis by (simp add: on_REDO_def)
next
  case True
  with current_room_cases [OF assms] obtain r where r: "currentRoom sess = JSString r" by blast
  show ?thesis
  proof (cases "redo (roomStates srv) (JSString r)")
    case (Inl e)
    with True r assms show ?thesis by (simp add: on_REDO_def)
  next
    case (Inr t)
    obtain rs1 h where t: "t = (rs1, h)" by (cases t)
    have "\<forall>k. k \<noteq> r \<longrightarrow> undoRedoState rs1 (JSString r) k = roomStates srv k"
      using Inr t by (simp add: undoRedoState_frame redo_frame)
    from sanitized_store_update [OF assms r this] True r Inr t show ?thesis
      by (simp add: on_REDO_def)
  qed
qed

lemma on_REQUEST_HISTORY_sanitized:
  assumes "room_ids_sanitized srv sess"
  shows "room_ids_sanitized (fst (on_REQUEST_HISTORY srv sess)) (snd (on_REQUEST_HISTORY srv sess))"
proof (cases "truthy (currentRoom sess)")
  case False
  with assms show ?thesis by (simp add: on_REQUEST_HISTORY_def)
next
  case True
  with current_room_cases [OF assms] obtain r where r: "currentRoom sess = JSString r" by blast
  show ?thesis
  proof (cases "getHistory (roomStates srv) (JSString r)")
    case (Inl e)
    with True r assms show ?thesis by (simp add: on_REQUEST_HISTORY_def)
  next
    case (Inr t)
    obtain rs1 h where t: "t = (rs1, h)" by (cases t)
    have "\<forall>k. k \<noteq> r \<longrightarrow> undoRedoState rs1 (JSString r) k = roomStates srv k"
      using Inr t by (simp add: undoRedoState_frame getHistory_frame)
    from sanitized_store_update [OF assms r this] True r Inr t show ?thesis
      by (simp add: on_REQUEST_HISTORY_def)
  qed
qed

lemma on_CLEAR_sanitized:
  assumes "room_ids_sanitized srv sess"
  shows "room_ids_sanitized (fst (on_CLEAR srv sess)) (snd (on_CLEAR srv sess))"
proof (cases "truthy (currentRoom sess)")
  case False
  with assms show ?thesis by (simp add: on_CLEAR_def)
next
  case True
  with current_room_cases [OF assms] obtain r where r: "currentRoom sess = JSString r" by blast
  show ?thesis
  proof (cases "clear (roomStates srv) (JSString r)")
    case (Inl e)
    with True r assms show ?thesis by (simp add: on_CLEAR_def)
  next
    case (Inr rs1)
    have "\<forall>k. k \<noteq> r \<longrightarrow> rs1 k = roomStates srv k"
      using Inr by (simp add: clear_frame)
    from sanitized_store_update [OF assms r this] True r Inr show ?thesis
      by (simp add: on_CLEAR_def)
  qed
qed

lemma on_DRAW_sanitized:
  assumes "room_ids_sanitized srv sess"
  shows "room_ids_sanitized (fst (on_DRAW data srv sess)) (snd (on_DRAW data srv sess))"
proof (cases "truthy (currentRoom sess) \<and> isValidOperation data")
  case False
  with assms show ?thesis by (auto simp add: on_DRAW_def)
next
  case True
  with current_room_cases [OF assms] obtain r where r: "currentRoom sess = JSString r" by blast
  show ?thesis
  proof (cases "addOperation (roomStates srv) (JSString r) data")
    case (Inl e)
    with True r assms show ?thesis by (simp add: on_DRAW_def)
  next
    case (Inr rs1)
    have "\<forall>k. k \<noteq> r \<longrightarrow> undoRedoState rs1 (JSString r) k = roomStates srv k"
      using Inr by (simp add: undoRedoState_frame addOperation_frame)
    from sanitized_store_update [OF assms r this] True r Inr show ?thesis
      by (simp add: on_DRAW_def)
  qed
qed

lemma on_CURSOR_MOVE_sanitized:
  assumes "room_ids_sanitized srv sess"
  shows "room_ids_sanitized (fst (on_CURSOR_MOVE data srv sess)) (snd (on_CURSOR_MOVE data srv sess))"
  using assms by (simp add: on_CURSOR_MOVE_def)

lemma sanitized_update:
  assumes "room_ids_sanitized srv sess" and "room_id_ok r"
    and "\<forall>k. k \<noteq> r \<longrightarrow> reg1 k = rooms srv k"
    and "\<forall>k. k \<noteq> r \<longrightarrow> rs2 k = roomStates srv k"
    and "currentRoom sess2 = currentRoom sess \<or> currentRoom sess2 = JSString r"
  shows "room_ids_sanitized (srv\<lparr>rooms := reg1, roomStates := rs2\<rparr>) sess2"
proof -
  from assms(1) have a: "\<forall>k. rooms srv k \<noteq> None \<longrightarrow> room_id_ok k"
    and b: "\<forall>k. roomStates srv k \<noteq> None \<longrightarrow> room_id_ok k"
    and c: "currentRoom sess = JSNull \<or> (\<exists>r. currentRoom sess = JSString r \<and> room_id_ok r)"
    by (simp_all add: room_ids_sanitized_def)
  note a2 = keys_ok_frame [OF a assms(2) assms(3)]
  note b2 = keys_ok_frame [OF b assms(2) assms(4)]
  from c assms(2) assms(5)
  have "currentRoom sess2 = JSNull \<or> (\<exists>r. currentRoom sess2 = JSString r \<and> room_id_ok r)"
    by auto
  with a2 b2 show ?thesis by (simp add: room_ids_sanitized_def)
qed

lemma on_disconnect_sanitized:
  assumes "room_ids_sanitized srv sess"
  shows "room_ids_sanitized (fst (on_disconnect sid srv sess)) (snd (on_disconnect sid srv sess))"
proof (cases "truthy (currentRoom sess)")
  case False
  with assms show ?thesis by (simp add: on_disconnect_def)
next
  case True
  with current_room_cases [OF assms] obtain r where
    r: "currentRoom sess = JSString r" "room_id_ok r" by blast
  show ?thesis
  proof (cases "removeUser (rooms srv) (JSString r) (JSString sid)")
    case (Inl e)
    with True r assms show ?thesis by (simp add: on_disconnect_def)
  next
    case (Inr reg1)
    have f1: "\<forall>k. k \<noteq> r \<longrightarrow> reg1 k = rooms srv k"
      using Inr by (simp add: removeUser_frame)
    have f2: "\<forall>k. k \<noteq> r \<longrightarrow> deleteRoom (roomStates srv) (JSString r) k = roomStates srv k"
      by (simp add: deleteRoom_frame)
    have f3: "\<forall>k. k \<noteq> r \<longrightarrow> roomStates srv k = roomStates srv k" by simp
    have same: "currentRoom sess = currentRoom sess \<or> currentRoom sess = JSString r" by simp
    note del = sanitized_update [OF assms r(2) f1 f2 same]
    note keep = sanitized_update [OF assms r(2) f1 f3 same]
    from del keep True r Inr show ?thesis
      by (simp add: on_disconnect_def Let_def)
  qed
qed

lemma room_id_ok_sanitizeRoomId: "room_id_ok (sanitizeRoomId v)"
  using sanitizeRoomId_ok [of v] by (simp add: room_id_ok_def)

lemma on_JOIN_ROOM_currentRoom:
  "currentRoom (snd (on_JOIN_ROOM sid v srv sess)) = JSString (sanitizeRoomId v)"
  by (simp add: on_JOIN_ROOM_def Let_def split: sum.splits prod.splits)

lemma on_JOIN_ROOM_sanitized:
  assumes "room_ids_sanitized srv sess"
  shows "room_ids_sanitized (fst (on_JOIN_ROOM sid v srv sess)) (snd (on_JOIN_ROOM sid v srv sess))"
proof -
  let ?room = "sanitizeRoomId v"
  have ok: "room_id_ok ?room" by (rule room_id_ok_sanitizeRoomId)
  have id1: "\<forall>k. k \<noteq> ?room \<longrightarrow> rooms srv k = rooms srv k" by simp
  have id2: "\<forall>k. k \<noteq> ?room \<longrightarrow> roomStates srv k = roomStates srv k" by simp
  show ?thesis
  proof (cases "addUser (rooms srv) (JSString ?room) (JSString sid)")
    case (Inl e)
    have cur: "currentRoom (sess\<lparr>currentRoom := JSString ?room\<rparr>) = currentRoom sess \<or>
        currentRoom (sess\<lparr>currentRoom := JSString ?room\<rparr>) = JSString ?room" by simp
    from sanitized_update [OF assms ok id1 id2 cur] Inl show ?thesis
      by (simp add: on_JOIN_ROOM_def Let_def)
  next
    case (Inr t)
    obtain reg1 color users where t: "t = (reg1, color, users)" by (cases t)
    let ?sess2 = "sess\<lparr>currentRoom := JSString ?room, userColor := JSString color\<rparr>"
    have cur: "currentRoom ?sess2 = currentRoom sess \<or> currentRoom ?sess2 = JSString ?room"
      by simp
    have f1: "\<forall>k. k \<noteq> ?room \<longrightarrow> reg1 k = rooms srv k"
      using Inr t by (simp add: addUser_frame)
    show ?thesis
    proof (cases "getHistory (roomStates srv) (JSString ?room)")
      case (Inl e)
      from sanitized_update [OF assms ok f1 id2 cur] Inr t Inl show ?thesis
        by (simp add: on_JOIN_ROOM_def Let_def)
    next
      case inner: (Inr t2)
      obtain rs1 h where t2: "t2 = (rs1, h)" by (cases t2)
      have f2: "\<forall>k. k \<noteq> ?room \<longrightarrow> undoRedoState rs1 (JSString ?room) k = roomStates srv k"
        using inner t2 by (simp add: undoRedoState_frame getHistory_frame)
      from sanitized_update [OF assms ok f1 f2 cur] Inr t inner t2 show ?thesis
        by (simp add: on_JOIN_ROOM_def Let_def)
    qed
  qed
qed

lemma handle_sanitized:
  assumes "room_ids_sanitized srv sess"
  shows "room_ids_sanitized (fst (handle sid m (srv, sess))) (snd (handle sid m (srv, sess)))"
proof (cases m)
  case (JOIN_ROOM roomId)
  with on_JOIN_ROOM_sanitized [OF assms] show ?thesis by simp
next
  case (DRAW data)
  with on_DRAW_sanitized [OF assms] show ?thesis by simp
next
  case (CURSOR_MOVE data)
  with on_CURSOR_MOVE_sanitized [OF assms] show ?thesis by simp
next
  case UNDO
  with on_UNDO_sanitized [OF assms] show ?thesis by simp
next
  case REDO
  with on_REDO_sanitized [OF assms] show ?thesis by simp
next
  case CLEAR
  with on_CLEAR_sanitized [OF assms] show ?thesis by simp
next
  case REQUEST_HISTORY
  with on_REQUEST_HISTORY_sanitized [OF assms] show ?thesis by simp
next
  case DISCONNECT
  with on_disconnect_sanitized [OF assms] show ?thesis by simp
qed

lemma process_sanitized:
  "room_ids_sanitized (fst state) (snd state) \<Longrightarrow>
   room_ids_sanitized (fst (process sid ms state)) (snd (process sid ms state))"
proof (induction ms arbitrary: state)
  case Nil
  then show ?case by simp
next
  case (Cons m ms)
  obtain srv sess where s: "state = (srv, sess)" by (cases state)
  with Cons.prems have "room_ids_sanitized srv sess" by simp
  then have "room_ids_sanitized (fst (handle sid m (srv, sess))) (snd (handle sid m (srv, sess)))"
    by (rule handle_sanitized)
  from Cons.IH [OF this] s show ?case by simp
qed

lemma initial_sanitized: "room_ids_sanitized initial_server initial_session"
  by (simp add: room_ids_sanitized_def initial_server_def initial_session_def)

subsection \<open>Room identifiers\<close>

text \<open>
  Claim C8, as stated, fails on the code: the registry and the history store take a room
  identifier with a space and an exclamation mark, which the sanitizer would never
  produce.
\<close>

theorem core_accepts_unsanitized_room_id:
  "\<not> set ''a b!'' \<subseteq> set room_id_alphabet \<and>
   priv_getRoom Map.empty (JSString ''a b!'') = Inr (Map.empty(''a b!'' \<mapsto> []), ''a b!'', []) \<and>
   priv_getRoomState Map.empty (JSString ''a b!'') =
     Inr (Map.empty(''a b!'' \<mapsto> \<lparr>history = [], redoStack = []\<rparr>), ''a b!'',
          \<lparr>history = [], redoStack = []\<rparr>)"
  by (simp add: room_id_alphabet_def priv_getRoom_def priv_getRoomState_def Let_def)

text \<open>
  Claim C8, amended. The sanitizer always returns a non-empty string of at most fifty
  characters, all of them alphanumeric or hyphens. The registry and the history store
  reject a room identifier exactly when it is not a non-empty string, and accept every
  non-empty string, whatever its characters and its length. Room identifiers reach them
  through the sanitizer: \<^verbatim>\<open>JOIN_ROOM\<close> sets \<^verbatim>\<open>currentRoom\<close> to the sanitizer's output, every
  handler keeps the room identifiers within the restriction, and so, after any sequence of
  inbound messages from the initial state, \<^verbatim>\<open>currentRoom\<close> is \<^verbatim>\<open>null\<close> or within the
  restriction and so is every key of the registry and of the history store.
\<close>

theorem sanitized_room_id_and_core_guard:
  "(sanitizeRoomId v \<noteq> [] \<and> length (sanitizeRoomId v) \<le> 50 \<and>
    set (sanitizeRoomId v) \<subseteq> set room_id_alphabet) \<and>
   (priv_getRoom reg roomId = Inl InvalidRoomId) = (\<forall>s. roomId = JSString s \<longrightarrow> s = []) \<and>
   (priv_getRoomState rs roomId = Inl InvalidRoomId) = (\<forall>s. roomId = JSString s \<longrightarrow> s = []) \<and>
   (\<forall>s. s \<noteq> [] \<longrightarrow>
      (\<exists>reg1 room. priv_getRoom reg (JSString s) = Inr (reg1, s, room)) \<and>
      (\<exists>rs1 st. priv_getRoomState rs (JSString s) = Inr (rs1, s, st))) \<and>
   currentRoom (snd (on_JOIN_ROOM sid v srv sess)) = JSString (sanitizeRoomId v) \<and>
   (room_ids_sanitized srv sess \<longrightarrow>
      room_ids_sanitized (fst (process sid ms (srv, sess))) (snd (process sid ms (srv, sess)))) \<and>
   (currentRoom (snd (process sid ms (initial_server, initial_session))) = JSNull \<or>
    (\<exists>r. currentRoom (snd (process sid ms (initial_server, initial_session))) = JSString r \<and>
         room_id_ok r)) \<and>
   (\<forall>k. rooms (fst (process sid ms (initial_server, initial_session))) k \<noteq> None \<longrightarrow>
      room_id_ok k) \<and>
   (\<forall>k. roomStates (fst (process sid ms (initial_server, initial_session))) k \<noteq> None \<longrightarrow>
      room_id_ok k)"
proof -
  have core: "(sanitizeRoomId v \<noteq> [] \<and> length (sanitizeRoomId v) \<le> 50 \<and>
      set (sanitizeRoomId v) \<subseteq> set room_id_alphabet) \<and>
    (priv_getRoom reg roomId = Inl InvalidRoomId) = (\<forall>s. roomId = JSString s \<longrightarrow> s = []) \<and>
    (priv_getRoomState rs roomId = Inl InvalidRoomId) = (\<forall>s. roomId = JSString s \<longrightarrow> s = []) \<and>
    (\<forall>s. s \<noteq> [] \<longrightarrow>
      (\<exists>reg1 room. priv_getRoom reg (JSString s) = Inr (reg1, s, room)) \<and>
      (\<exists>rs1 st. priv_getRoomState rs (JSString s) = Inr (rs1, s, st)))"
    using sanitizeRoomId_ok [of v] getRoom_error_iff [of reg roomId]
      getRoomState_error_iff [of rs roomId] getRoom_accepts [of _ reg]
      getRoomState_accepts [of _ rs]
    by blast
  have join: "currentRoom (snd (on_JOIN_ROOM sid v srv sess)) = JSString (sanitizeRoomId v)"
    by (rule on_JOIN_ROOM_currentRoom)
  have step: "room_ids_sanitized srv sess \<longrightarrow>
      room_ids_sanitized (fst (process sid ms (srv, sess))) (snd (process sid ms (srv, sess)))"
    using process_sanitized [of "(srv, sess)" sid ms] by simp
  have "room_ids_sanitized (fst (process sid ms (initial_server, initial_session)))
      (snd (process sid ms (initial_server, initial_session)))"
    using process_sanitized [of "(initial_server, initial_session)" sid ms] initial_sanitized
    by simp
  then have reach:
    "(currentRoom (snd (process sid ms (initial_server, initial_session))) = JSNull \<or>
      (\<exists>r. currentRoom (snd (process sid ms (initial_server, initial_session))) = JSString r \<and>
           room_id_ok r)) \<and>
     (\<forall>k. rooms (fst (process sid ms (initial_server, initial_session))) k \<noteq> None \<longrightarrow>
        room_id_ok k) \<and>
     (\<forall>k. roomStates (fst (process sid ms (initial_server, initial_session))) k \<noteq> None \<longrightarrow>
        room_id_ok k)"
    unfolding room_ids_sanitized_def by blast
  from core join step reach show ?thesis by blast
qed

theorem sanitized_room_id_and_core_guard_witness:
  "(sanitizeRoomId (JSString ''my room!'') \<noteq> [] \<and>
    length (sanitizeRoomId (JSString ''my room!'')) \<le> 50 \<and>
    set (sanitizeRoomId (JSString ''my room!'')) \<subseteq> set room_id_alphabet) \<and>
   priv_getRoom Map.empty (JSString []) = Inl InvalidRoomId \<and>
   priv_getRoomState Map.empty (JSString []) = Inl InvalidRoomId \<and>
   (\<exists>reg1 room. priv_getRoom Map.empty (JSString ''my room!'') = Inr (reg1, ''my room!'', room)) \<and>
   (\<exists>rs1 st. priv_getRoomState Map.empty (JSString ''my room!'') = Inr (rs1, ''my room!'', st)) \<and>
   currentRoom (snd (on_JOIN_ROOM ''s1'' (JSString ''my room!'') initial_server initial_session)) =
     JSString ''myroom'' \<and>
   rooms (fst (process ''s1'' [JOIN_ROOM (JSString ''my room!''), UNDO]
                 (initial_server, initial_session))) ''my room!'' = None \<and>
   roomStates (fst (process ''s1'' [JOIN_ROOM (JSString ''my room!''), UNDO]
                 (initial_server, initial_session))) ''my room!'' = None \<and>
   room_ids_sanitized initial_server initial_session \<and>
   room_ids_sanitized
     (fst (process ''s1'' [JOIN_ROOM (JSString ''my room!''), UNDO]
             (initial_server, initial_session)))
     (snd (process ''s1'' [JOIN_ROOM (JSString ''my room!''), UNDO]
             (initial_server, initial_session)))"
proof -
  note t = sanitized_room_id_and_core_guard
    [where v = "JSString ''my room!''" and reg = Map.empty and roomId = "JSString []"
       and rs = Map.empty and sid = "''s1''" and srv = initial_server
       and sess = initial_session and ms = "[JOIN_ROOM (JSString ''my room!''), UNDO]"]
  from t have a: "sanitizeRoomId (JSString ''my room!'') \<noteq> [] \<and>
    length (sanitizeRoomId (JSString ''my room!'')) \<le> 50 \<and>
    set (sanitizeRoomId (JSString ''my room!'')) \<subseteq> set room_id_alphabet"
    by (rule conjunct1)
  from t have "(priv_getRoom Map.empty (JSString []) = Inl InvalidRoomId) =
      (\<forall>s. JSString [] = JSString s \<longrightarrow> s = [])"
    by blast
  then have b: "priv_getRoom Map.empty (JSString []) = Inl InvalidRoomId" by simp
  from t have "(priv_getRoomState Map.empty (JSString []) = Inl InvalidRoomId) =
      (\<forall>s. JSString [] = JSString s \<longrightarrow> s = [])"
    by blast
  then have c: "priv_getRoomState Map.empty (JSString []) = Inl InvalidRoomId" by simp
  from t have "\<forall>s. s \<noteq> [] \<longrightarrow>
      (\<exists>reg1 room. priv_getRoom Map.empty (JSString s) = Inr (reg1, s, room)) \<and>
      (\<exists>rs1 st. priv_getRoomState Map.empty (JSString s) = Inr (rs1, s, st))"
    by blast
  then have "''my room!'' \<noteq> [] \<longrightarrow>
      (\<exists>reg1 room. priv_getRoom Map.empty (JSString ''my room!'') = Inr (reg1, ''my room!'', room)) \<and>
      (\<exists>rs1 st. priv_getRoomState Map.empty (JSString ''my room!'') = Inr (rs1, ''my room!'', st))"
    by (rule spec)
  then have d: "(\<exists>reg1 room. priv_getRoom Map.empty (JSString ''my room!'') = Inr (reg1, ''my room!'', room)) \<and>
      (\<exists>rs1 st. priv_getRoomState Map.empty (JSString ''my room!'') = Inr (rs1, ''my room!'', st))"
    by simp
  from t have "currentRoom (snd (on_JOIN_ROOM ''s1'' (JSString ''my room!'') initial_server
      initial_session)) = JSString (sanitizeRoomId (JSString ''my room!''))"
    by blast
  then have e: "currentRoom (snd (on_JOIN_ROOM ''s1'' (JSString ''my room!'') initial_server
      initial_session)) = JSString ''myroom''"
    by (simp add: sanitizeRoomId_def room_id_char_def less_eq_char_def)
  have bad: "\<not> room_id_ok ''my room!''"
    by (simp add: room_id_ok_def room_id_alphabet_def)
  from t have "\<forall>k. rooms (fst (process ''s1'' [JOIN_ROOM (JSString ''my room!''), UNDO]
      (initial_server, initial_session))) k \<noteq> None \<longrightarrow> room_id_ok k"
    by blast
  with bad have f: "rooms (fst (process ''s1'' [JOIN_ROOM (JSString ''my room!''), UNDO]
      (initial_server, initial_session))) ''my room!'' = None"
    by blast
  from t have "\<forall>k. roomStates (fst (process ''s1'' [JOIN_ROOM (JSString ''my room!''), UNDO]
      (initial_server, initial_session))) k \<noteq> None \<longrightarrow> room_id_ok k"
    by blast
  with bad have g: "roomStates (fst (process ''s1'' [JOIN_ROOM (JSString ''my room!''), UNDO]
      (initial_server, initial_session))) ''my room!'' = None"
    by blast
  have h0: "room_ids_sanitized initial_server initial_session"
    by (simp add: room_ids_sanitized_def initial_server_def initial_session_def)
  from t have "room_ids_sanitized initial_server initial_session \<longrightarrow>
      room_ids_sanitized
        (fst (process ''s1'' [JOIN_ROOM (JSString ''my room!''), UNDO]
                (initial_server, initial_session)))
        (snd (process ''s1'' [JOIN_ROOM (JSString ''my room!''), UNDO]
                (initial_server, initial_session)))"
    by blast
  with h0 have h1: "room_ids_sanitized
        (fst (process ''s1'' [JOIN_ROOM (JSString ''my room!''), UNDO]
                (initial_server, initial_session)))
        (snd (process ''s1'' [JOIN_ROOM (JSString ''my room!''), UNDO]
                (initial_server, initial_session)))"
    by blast
  from a b c d e f g h0 h1 show ?thesis by blast
qed

subsection \<open>Validation of drawing operations\<close>

text \<open>
  Claim C4, as stated, fails on the code: \<^verbatim>\<open>addOperation\<close> takes a brush operation whose
  line width is 500, appends it and clears the redo stack.
\<close>

theorem addOperation_accepts_malformed_shape:
  "\<not> well_formed_operation
       (JSObject [(''tool'', JSString ''brush''), (''lineWidth'', JSNumber (Finite 500)),
                  (''from'', JSObject [(''x'', JSNumber (Finite 0)), (''y'', JSNumber (Finite 0))]),
                  (''to'', JSObject [(''x'', JSNumber (Finite 1)), (''y'', JSNumber (Finite 1))]),
                  (''color'', JSString ''#000000'')]) \<and>
   addOperation (Map.empty(''r1'' \<mapsto> \<lparr>history = [], redoStack = [JSObject []]\<rparr>)) (JSString ''r1'')
       (JSObject [(''tool'', JSString ''brush''), (''lineWidth'', JSNumber (Finite 500)),
                  (''from'', JSObject [(''x'', JSNumber (Finite 0)), (''y'', JSNumber (Finite 0))]),
                  (''to'', JSObject [(''x'', JSNumber (Finite 1)), (''y'', JSNumber (Finite 1))]),
                  (''color'', JSString ''#000000'')]) =
     Inr (Map.empty(''r1'' \<mapsto>
       \<lparr>history =
          [JSObject [(''tool'', JSString ''brush''), (''lineWidth'', JSNumber (Finite 500)),
                     (''from'', JSObject [(''x'', JSNumber (Finite 0)), (''y'', JSNumber (Finite 0))]),
                     (''to'', JSObject [(''x'', JSNumber (Finite 1)), (''y'', JSNumber (Finite 1))]),
                     (''color'', JSString ''#000000'')]],
        redoStack = []\<rparr>))"
  by (simp add: addOperation_def priv_getRoomState_def evictOldest_def MAX_HISTORY_SIZE_def)

text \<open>
  Claim C4, amended. The shape is checked by \<^verbatim>\<open>isValidOperation\<close> in the \<^verbatim>\<open>DRAW\<close> handler,
  before \<^verbatim>\<open>addOperation\<close> is called: for a payload whose line width is not NaN it accepts
  exactly the well-formed operations (numeric start and end coordinates, tool brush or
  eraser, line width from 1 to 100, a colour string for the brush). A payload it rejects
  is dropped, and the registry, the history store and the connection's variables stay as
  they were; a payload it accepts, on a joined connection, is appended by
  \<^verbatim>\<open>addOperation\<close>. \<^verbatim>\<open>addOperation\<close> itself fails with the invalid-operation error, before
  any write, exactly when the operation is not an object.
\<close>

theorem draw_validates_before_append:
  "(get_prop data ''lineWidth'' \<noteq> JSNumber NaN \<longrightarrow>
      isValidOperation data = well_formed_operation data) \<and>
   (\<not> isValidOperation data \<longrightarrow> on_DRAW data srv sess = (srv, sess)) \<and>
   (truthy (currentRoom sess) \<and> typeof (currentRoom sess) = TyString \<and> isValidOperation data \<longrightarrow>
      (\<exists>rs1. addOperation (roomStates srv) (currentRoom sess) data = Inr rs1 \<and>
         on_DRAW data srv sess = (srv\<lparr>roomStates := rs1\<rparr>, sess))) \<and>
   (addOperation rs roomId operation = Inl InvalidOperation) = (\<forall>ps. operation \<noteq> JSObject ps)"
  using isValidOperation_well_formed [of data] on_DRAW_invalid [of data srv sess]
    on_DRAW_valid [of sess data srv] addOperation_error_iff [of rs roomId operation]
  by blast

theorem draw_validates_before_append_witness:
  "\<not> isValidOperation
       (JSObject [(''tool'', JSString ''brush''), (''lineWidth'', JSNumber (Finite 500)),
                  (''from'', JSObject [(''x'', JSNumber (Finite 0)), (''y'', JSNumber (Finite 0))]),
                  (''to'', JSObject [(''x'', JSNumber (Finite 1)), (''y'', JSNumber (Finite 1))]),
                  (''color'', JSString ''#000000'')]) \<and>
   on_DRAW
       (JSObject [(''tool'', JSString ''brush''), (''lineWidth'', JSNumber (Finite 500)),
                  (''from'', JSObject [(''x'', JSNumber (Finite 0)), (''y'', JSNumber (Finite 0))]),
                  (''to'', JSObject [(''x'', JSNumber (Finite 1)), (''y'', JSNumber (Finite 1))]),
                  (''color'', JSString ''#000000'')])
       \<lparr>rooms = Map.empty(''r1'' \<mapsto> [(''s1'', ''#FF5733'')]),
        roomStates = Map.empty(''r1'' \<mapsto> \<lparr>history = [], redoStack = [JSObject []]\<rparr>)\<rparr>
       \<lparr>currentRoom = JSString ''r1'', userColor = JSString ''#FF5733''\<rparr> =
     (\<lparr>rooms = Map.empty(''r1'' \<mapsto> [(''s1'', ''#FF5733'')]),
       roomStates = Map.empty(''r1'' \<mapsto> \<lparr>history = [], redoStack = [JSObject []]\<rparr>)\<rparr>,
      \<lparr>currentRoom = JSString ''r1'', userColor = JSString ''#FF5733''\<rparr>) \<and>
   isValidOperation
       (JSObject [(''tool'', JSString ''eraser''), (''lineWidth'', JSNumber (Finite 5)),
                  (''from'', JSObject [(''x'', JSNumber (Finite 0)), (''y'', JSNumber (Finite 0))]),
                  (''to'', JSObject [(''x'', JSNumber (Finite 1)), (''y'', JSNumber (Finite 1))])]) \<and>
   (\<exists>rs1. addOperation (Map.empty(''r1'' \<mapsto> \<lparr>history = [], redoStack = [JSObject []]\<rparr>))
            (JSString ''r1'')
            (JSObject [(''tool'', JSString ''eraser''), (''lineWidth'', JSNumber (Finite 5)),
                  (''from'', JSObject [(''x'', JSNumber (Finite 0)), (''y'', JSNumber (Finite 0))]),
                  (''to'', JSObject [(''x'', JSNumber (Finite 1)), (''y'', JSNumber (Finite 1))])]) =
            Inr rs1 \<and>
      on_DRAW
        (JSObject [(''tool'', JSString ''eraser''), (''lineWidth'', JSNumber (Finite 5)),
                  (''from'', JSObject [(''x'', JSNumber (Finite 0)), (''y'', JSNumber (Finite 0))]),
                  (''to'', JSObject [(''x'', JSNumber (Finite 1)), (''y'', JSNumber (Finite 1))])])
        \<lparr>rooms = Map.empty(''r1'' \<mapsto> [(''s1'', ''#FF5733'')]),
         roomStates = Map.empty(''r1'' \<mapsto> \<lparr>history = [], redoStack = [JSObject []]\<rparr>)\<rparr>
        \<lparr>currentRoom = JSString ''r1'', userColor = JSString ''#FF5733''\<rparr> =
      (\<lparr>rooms = Map.empty(''r1'' \<mapsto> [(''s1'', ''#FF5733'')]), roomStates = rs1\<rparr>,
       \<lparr>currentRoom = JSString ''r1'', userColor = JSString ''#FF5733''\<rparr>)) \<and>
   addOperation Map.empty (JSString ''r1'') JSNull = Inl InvalidOperation"
proof -
  let ?bad = "JSObject [(''tool'', JSString ''brush''), (''lineWidth'', JSNumber (Finite 500)),
                  (''from'', JSObject [(''x'', JSNumber (Finite 0)), (''y'', JSNumber (Finite 0))]),
                  (''to'', JSObject [(''x'', JSNumber (Finite 1)), (''y'', JSNumber (Finite 1))]),
                  (''color'', JSString ''#000000'')]"
  let ?good = "JSObject [(''tool'', JSString ''eraser''), (''lineWidth'', JSNumber (Finite 5)),
                  (''from'', JSObject [(''x'', JSNumber (Finite 0)), (''y'', JSNumber (Finite 0))]),
                  (''to'', JSObject [(''x'', JSNumber (Finite 1)), (''y'', JSNumber (Finite 1))])]"
  let ?srv = "\<lparr>rooms = Map.empty(''r1'' \<mapsto> [(''s1'', ''#FF5733'')]),
        roomStates = Map.empty(''r1'' \<mapsto> \<lparr>history = [], redoStack = [JSObject []]\<rparr>)\<rparr>"
  let ?sess = "\<lparr>currentRoom = JSString ''r1'', userColor = JSString ''#FF5733''\<rparr>"
  note bad = draw_validates_before_append [of ?bad ?srv ?sess Map.empty "JSString ''r1''" JSNull]
  note good = draw_validates_before_append [of ?good ?srv ?sess Map.empty "JSString ''r1''" JSNull]
  from bad have "get_prop ?bad ''lineWidth'' \<noteq> JSNumber NaN \<longrightarrow>
      isValidOperation ?bad = well_formed_operation ?bad"
    by (rule conjunct1)
  then have a: "\<not> isValidOperation ?bad" by simp
  from bad have "\<not> isValidOperation ?bad \<longrightarrow> on_DRAW ?bad ?srv ?sess = (?srv, ?sess)"
    by blast
  with a have b: "on_DRAW ?bad ?srv ?sess = (?srv, ?sess)" by blast
  from good have "get_prop ?good ''lineWidth'' \<noteq> JSNumber NaN \<longrightarrow>
      isValidOperation ?good = well_formed_operation ?good"
    by (rule conjunct1)
  then have c: "isValidOperation ?good" by simp
  from good have "truthy (currentRoom ?sess) \<and> typeof (currentRoom ?sess) = TyString \<and>
      isValidOperation ?good \<longrightarrow>
      (\<exists>rs1. addOperation (roomStates ?srv) (currentRoom ?sess) ?good = Inr rs1 \<and>
         on_DRAW ?good ?srv ?sess = (?srv\<lparr>roomStates := rs1\<rparr>, ?sess))"
    by blast
  with c have d: "\<exists>rs1. addOperation (Map.empty(''r1'' \<mapsto> \<lparr>history = [], redoStack = [JSObject []]\<rparr>))
        (JSString ''r1'') ?good = Inr rs1 \<and>
      on_DRAW ?good ?srv ?sess =
        (\<lparr>rooms = Map.empty(''r1'' \<mapsto> [(''s1'', ''#FF5733'')]), roomStates = rs1\<rparr>, ?sess)"
    by simp
  from bad have "(addOperation Map.empty (JSString ''r1'') JSNull = Inl InvalidOperation) =
      (\<forall>ps. JSNull \<noteq> JSObject ps)"
    by blast
  then have e: "addOperation Map.empty (JSString ''r1'') JSNull = Inl InvalidOperation" by simp
  from a b c d e show ?thesis by blast
qed

subsection \<open>One room per member\<close>

text \<open>
  Claim C9. A connection that sends \<^verbatim>\<open>JOIN_ROOM\<close> for room a and then for room b is
  registered in both rooms afterwards: the handler overwrites \<^verbatim>\<open>currentRoom\<close> and adds the
  member to the new room without removing it from the old one. A later disconnect removes
  the member from room b only, and room a keeps it.
\<close>

theorem second_join_keeps_first_room:
  "process ''s1'' [JOIN_ROOM (JSString ''a''), JOIN_ROOM (JSString ''b'')]
       (initial_server, initial_session) =
     (\<lparr>rooms = Map.empty(''a'' \<mapsto> [(''s1'', ''#FF5733'')], ''b'' \<mapsto> [(''s1'', ''#FF5733'')]),
       roomStates = Map.empty(''a'' \<mapsto> \<lparr>history = [], redoStack = []\<rparr>,
                              ''b'' \<mapsto> \<lparr>history = [], redoStack = []\<rparr>)\<rparr>,
      \<lparr>currentRoom = JSString ''b'', userColor = JSString ''#FF5733''\<rparr>) \<and>
   hasUser (Map.empty(''a'' \<mapsto> [(''s1'', ''#FF5733'')], ''b'' \<mapsto> [(''s1'', ''#FF5733'')]))
     (JSString ''a'') (JSString ''s1'') \<and>
   hasUser (Map.empty(''a'' \<mapsto> [(''s1'', ''#FF5733'')], ''b'' \<mapsto> [(''s1'', ''#FF5733'')]))
     (JSString ''b'') (JSString ''s1'') \<and>
   hasUser
     (rooms (fst (process ''s1''
        [JOIN_ROOM (JSString ''a''), JOIN_ROOM (JSString ''b''), DISCONNECT]
        (initial_server, initial_session))))
     (JSString ''a'') (JSString ''s1'')"
proof -
  let ?srv1 = "\<lparr>rooms = Map.empty(''a'' \<mapsto> [(''s1'', ''#FF5733'')]),
       roomStates = Map.empty(''a'' \<mapsto> \<lparr>history = [], redoStack = []\<rparr>)\<rparr>"
  let ?sess1 = "\<lparr>currentRoom = JSString ''a'', userColor = JSString ''#FF5733''\<rparr>"
  let ?reg2 = "Map.empty(''a'' \<mapsto> [(''s1'', ''#FF5733'')], ''b'' \<mapsto> [(''s1'', ''#FF5733'')])"
  let ?srv2 = "\<lparr>rooms = ?reg2,
       roomStates = Map.empty(''a'' \<mapsto> \<lparr>history = [], redoStack = []\<rparr>,
                              ''b'' \<mapsto> \<lparr>history = [], redoStack = []\<rparr>)\<rparr>"
  let ?sess2 = "\<lparr>currentRoom = JSString ''b'', userColor = JSString ''#FF5733''\<rparr>"
  have j1: "on_JOIN_ROOM ''s1'' (JSString ''a'') initial_server initial_session = (?srv1, ?sess1)"
    by (rule join_a)
  have j2: "on_JOIN_ROOM ''s1'' (JSString ''b'') ?srv1 ?sess1 = (?srv2, ?sess2)"
    by (simp add: on_JOIN_ROOM_def sanitizeRoomId_def
      room_id_char_def less_eq_char_def addUser_def priv_getRoom_def getUsers_def
      USER_COLORS_def getHistory_def priv_getRoomState_def undoRedoState_def canUndo_def
      canRedo_def Let_def)
  have d: "on_disconnect ''s1'' ?srv2 ?sess2 =
      (\<lparr>rooms = Map.empty(''a'' \<mapsto> [(''s1'', ''#FF5733'')]),
        roomStates = Map.empty(''a'' \<mapsto> \<lparr>history = [], redoStack = []\<rparr>)\<rparr>, ?sess2)"
    by (simp add: on_disconnect_def removeUser_def priv_getRoom_def AList.delete_eq
      getUserCount_def deleteRoom_def Let_def fun_upd_twist)
  have two: "process ''s1'' [JOIN_ROOM (JSString ''a''), JOIN_ROOM (JSString ''b'')]
       (initial_server, initial_session) = (?srv2, ?sess2)"
    by (simp add: j1 j2)
  have three: "process ''s1'' [JOIN_ROOM (JSString ''a''), JOIN_ROOM (JSString ''b''), DISCONNECT]
       (initial_server, initial_session) =
      (\<lparr>rooms = Map.empty(''a'' \<mapsto> [(''s1'', ''#FF5733'')]),
        roomStates = Map.empty(''a'' \<mapsto> \<lparr>history = [], redoStack = []\<rparr>)\<rparr>, ?sess2)"
    by (simp add: j1 j2 d)
  have h: "hasUser ?reg2 (JSString ''a'') (JSString ''s1'') \<and>
           hasUser ?reg2 (JSString ''b'') (JSString ''s1'')"
    by (simp add: hasUser_def)
  have h3: "hasUser (Map.empty(''a'' \<mapsto> [(''s1'', ''#FF5733'')])) (JSString ''a'') (JSString ''s1'')"
    by (simp add: hasUser_def)
  from two three h h3 show ?thesis by simp
qed

end
